theory Spec2Isabelle
  imports Main "HOL-Library.Word"
begin

section \<open>Data model of the administrator surface\<close>

text \<open>
  JavaScript strings are sequences of UTF-16 code units, byte arrays (\<open>Uint8Array\<close>) are
  sequences of octets. Timestamps are the millisecond counts returned by \<open>Date.now()\<close>;
  counters are JavaScript numbers holding integers. Both are modelled as \<open>int\<close>.
\<close>

type_synonym js_string = "16 word list"
type_synonym bytes = "8 word list"
type_synonym ms = int

text \<open>
  Exceptions of the platform functions the code calls: \<open>atob\<close> throws
  \<open>InvalidCharacterError\<close> on input that is not base64; PBKDF2 key derivation rejects with
  \<open>TypeError\<close> when the iteration count does not fit an unsigned 32-bit integer and with
  \<open>OperationError\<close> when it is zero.
\<close>

datatype exn = InvalidCharacterError | OperationError | TypeError

text \<open>Outcome objects \<open>{ ok, reason }\<close> and the reason codes the code uses.\<close>

datatype reason = Locked | SetupRequired | Invalid | Weak | Exists

record outcome =
  ok :: bool
  reason :: "reason option"

text \<open>The value stored under \<open>adminLockout\<close>: \<open>{ count, lockUntil }\<close>.\<close>

record lockout_rec =
  count :: int
  lockUntil :: ms

text \<open>
  The object returned by \<open>hashPassword\<close>, \<open>{ salt, iterations, hash }\<close>, with \<open>salt\<close> and
  \<open>hash\<close> in base64. The value stored under \<open>adminAuth\<close> spreads it into
  \<open>{ email, ...hp, createdAt, version }\<close>, and the customer surface stores the same three
  fields as \<open>user.pass\<close>.
\<close>

record hashed =
  salt :: js_string
  iterations :: nat
  hash :: js_string

record auth_rec = hashed +
  email :: js_string
  createdAt :: ms
  version :: nat

text \<open>The value stored under \<open>adminSession\<close>:
  \<open>{ token, email, createdAt, expiresAt, lastActivity }\<close>.\<close>

record session_rec =
  token :: js_string
  s_email :: js_string
  s_createdAt :: ms
  expiresAt :: ms
  lastActivity :: ms

text \<open>
  The three \<open>localStorage\<close> keys of the administrator surface. \<open>None\<close> is an absent key
  (\<open>getItem\<close> returns \<open>null\<close>, and \<open>ls.get\<close> then yields its fallback); a present key holds
  the JSON image of the object last written by \<open>ls.set\<close>.
\<close>

record admin_store =
  auth :: "auth_rec option"
  lockout :: "lockout_rec option"
  session :: "session_rec option"

section \<open>Encoding helpers and key derivation\<close>

text \<open>
  \<open>btoa\<close> and \<open>atob\<close> are platform functions. \<open>toBase64\<close> is
  \<open>btoa(String.fromCharCode(...new Uint8Array(arrBuf)))\<close>: every code unit handed to \<open>btoa\<close> is
  an octet, so \<open>btoa\<close> cannot throw there and the result is the RFC 4648 encoding of the
  octets, three octets giving four characters, padded with \<open>=\<close> (code unit 61).
\<close>

definition b64char :: "nat \<Rightarrow> 16 word" where
  "b64char i = of_nat (if i < 26 then 65 + i
                       else if i < 52 then 71 + i
                       else if i < 62 then i - 4
                       else if i = 62 then 43 else 47)"

fun sextets :: "bytes \<Rightarrow> nat list" where
  "sextets (a # b # c # xs) =
     (let n = unat a * 65536 + unat b * 256 + unat c
      in n div 262144 # n div 4096 mod 64 # n div 64 mod 64 # n mod 64 # sextets xs)"
| "sextets [a, b] =
     (let n = unat a * 65536 + unat b * 256
      in [n div 262144, n div 4096 mod 64, n div 64 mod 64])"
| "sextets [a] =
     (let n = unat a * 65536 in [n div 262144, n div 4096 mod 64])"
| "sextets [] = []"

definition toBase64 :: "bytes \<Rightarrow> js_string" where
  "toBase64 arrBuf =
     map b64char (sextets arrBuf) @ replicate ((3 - length arrBuf mod 3) mod 3) 61"

text \<open>
  \<open>fromBase64\<close> is \<open>Uint8Array.from(atob(b64), c => c.charCodeAt(0))\<close>. \<open>atob\<close> is the
  forgiving base64 decoder of the HTML standard: ASCII whitespace (TAB, LF, FF, CR, SPACE) is
  removed; if the length is then a multiple of four, one or two trailing \<open>=\<close> are removed; a
  length that leaves remainder one, or a character outside the alphabet, throws
  \<open>InvalidCharacterError\<close>; each four characters give three octets, and two or three
  left-over characters give one or two octets, the unused low bits being dropped.
\<close>

definition ascii_whitespace :: "16 word \<Rightarrow> bool" where
  "ascii_whitespace c = (c = 9 \<or> c = 10 \<or> c = 12 \<or> c = 13 \<or> c = 32)"

definition strip_padding :: "js_string \<Rightarrow> js_string" where
  "strip_padding d =
     (if length d mod 4 = 0 then
        (if 2 \<le> length d \<and> last d = 61 \<and> last (butlast d) = 61 then butlast (butlast d)
         else if 1 \<le> length d \<and> last d = 61 then butlast d
         else d)
      else d)"

definition b64val :: "16 word \<Rightarrow> nat option" where
  "b64val w =
     (let c = unat w in
      if 65 \<le> c \<and> c \<le> 90 then Some (c - 65)
      else if 97 \<le> c \<and> c \<le> 122 then Some (c - 71)
      else if 48 \<le> c \<and> c \<le> 57 then Some (c + 4)
      else if c = 43 then Some 62
      else if c = 47 then Some 63
      else None)"

fun octets :: "nat list \<Rightarrow> bytes" where
  "octets (a # b # c # d # xs) =
     (let n = a * 262144 + b * 4096 + c * 64 + d
      in of_nat (n div 65536) # of_nat (n div 256 mod 256) # of_nat (n mod 256) # octets xs)"
| "octets [a, b, c] =
     (let n = a * 262144 + b * 4096 + c * 64
      in [of_nat (n div 65536), of_nat (n div 256 mod 256)])"
| "octets [a, b] =
     (let n = a * 262144 + b * 4096 in [of_nat (n div 65536)])"
| "octets [a] = []"
| "octets [] = []"

definition fromBase64 :: "js_string \<Rightarrow> exn + bytes" where
  "fromBase64 b64 =
     (let d = strip_padding (filter (\<lambda>c. \<not> ascii_whitespace c) b64) in
      if length d mod 4 = 1 then Inl InvalidCharacterError
      else (case those (map b64val d) of
              None \<Rightarrow> Inl InvalidCharacterError
            | Some vs \<Rightarrow> Inr (octets vs)))"

text \<open>
  The key derivation primitive is \<open>crypto.subtle\<close>'s PBKDF2 with HMAC-SHA-256 and a 256-bit
  output, applied to the UTF-8 bytes of the password. It is a parameter \<open>kdf\<close> of the model:
  everything below holds for whatever function of (password, salt, iterations) the
  platform computes. The \<open>iterations\<close> member of the algorithm dictionary is an unsigned
  32-bit integer with range enforcement, so \<open>crypto.subtle.deriveKey\<close> rejects with
  \<open>TypeError\<close> for every count from 4294967296 (\<open>2^32\<close>) on, and PBKDF2 rejects a count of
  zero with \<open>OperationError\<close>; \<open>deriveKey\<close> passes both rejections on.
\<close>

type_synonym kdf = "js_string \<Rightarrow> bytes \<Rightarrow> nat \<Rightarrow> bytes"

definition deriveKey :: "kdf \<Rightarrow> js_string \<Rightarrow> bytes \<Rightarrow> nat \<Rightarrow> exn + bytes" where
  "deriveKey kdf password slt its =
     (if its \<ge> 4294967296 then Inl TypeError
      else if its = 0 then Inl OperationError
      else Inr (kdf password slt its))"

text \<open>
  \<open>hashPassword(password, saltBytes, iterations = 150000)\<close>. \<open>saltBytes\<close> is optional; a
  \<open>Uint8Array\<close> is always truthy, so \<open>saltBytes || crypto.getRandomValues(...)\<close> draws the
  random salt \<open>rnd\<close> exactly when no salt is passed.
\<close>

definition hashPassword :: "kdf \<Rightarrow> bytes \<Rightarrow> js_string \<Rightarrow> bytes option \<Rightarrow> nat \<Rightarrow> exn + hashed" where
  "hashPassword kdf rnd password saltBytes its =
     (let slt = (case saltBytes of Some b \<Rightarrow> b | None \<Rightarrow> rnd) in
      case deriveKey kdf password slt its of
        Inl e \<Rightarrow> Inl e
      | Inr raw \<Rightarrow> Inr \<lparr>salt = toBase64 slt, iterations = its, hash = toBase64 raw\<rparr>)"

text \<open>\<open>verifyPassword(password, auth)\<close> reads \<open>auth.salt\<close>, \<open>auth.iterations\<close>, \<open>auth.hash\<close>.\<close>

definition verifyPassword :: "kdf \<Rightarrow> js_string \<Rightarrow> 'a hashed_scheme \<Rightarrow> exn + bool" where
  "verifyPassword kdf password a =
     (case fromBase64 (salt a) of
        Inl e \<Rightarrow> Inl e
      | Inr slt \<Rightarrow>
          (case deriveKey kdf password slt (iterations a) of
             Inl e \<Rightarrow> Inl e
           | Inr raw \<Rightarrow> (let compare = toBase64 raw in Inr (compare = hash a))))"

definition getAuth :: "admin_store \<Rightarrow> auth_rec option" where
  "getAuth s = auth s"

definition setAuth :: "auth_rec \<Rightarrow> admin_store \<Rightarrow> admin_store" where
  "setAuth v s = s\<lparr>auth := Some v\<rparr>"

definition hasAuth :: "admin_store \<Rightarrow> bool" where
  "hasAuth s = (getAuth s \<noteq> None)"

section \<open>Lockout policy\<close>

text \<open>\<open>getLockout\<close>: \<open>ls.get(LOCKOUT_KEY, { count:0, lockUntil:0 })\<close>.\<close>

definition getLockout :: "admin_store \<Rightarrow> lockout_rec" where
  "getLockout s = (case lockout s of None \<Rightarrow> \<lparr>count = 0, lockUntil = 0\<rparr> | Some v \<Rightarrow> v)"

definition setLockout :: "lockout_rec \<Rightarrow> admin_store \<Rightarrow> admin_store" where
  "setLockout v s = s\<lparr>lockout := Some v\<rparr>"

definition resetLockout :: "admin_store \<Rightarrow> admin_store" where
  "resetLockout s = setLockout \<lparr>count = 0, lockUntil = 0\<rparr> s"

text \<open>
  \<open>recordFailure\<close>, with \<open>now\<close> the value read from \<open>Date.now()\<close>. On numbers \<open>x || 0\<close>
  is \<open>x\<close>, so \<open>state.count||0\<close> and \<open>state.lockUntil||0\<close> are the stored fields.
\<close>

definition recordFailure :: "ms \<Rightarrow> admin_store \<Rightarrow> admin_store" where
  "recordFailure now s =
     (let state = getLockout s;
          cnt = count state + 1;
          lu = (if cnt \<ge> 5
                then (let step = min (cnt - 4) 6 in now + step * 60 * 1000)
                else lockUntil state)
      in setLockout \<lparr>count = cnt, lockUntil = lu\<rparr> s)"

definition isLockedOut :: "ms \<Rightarrow> admin_store \<Rightarrow> bool" where
  "isLockedOut now s = (lockUntil (getLockout s) > now)"

section \<open>Sessions\<close>

definition getSession :: "admin_store \<Rightarrow> session_rec option" where
  "getSession s = session s"

definition setSession :: "session_rec \<Rightarrow> admin_store \<Rightarrow> admin_store" where
  "setSession v s = s\<lparr>session := Some v\<rparr>"

definition clearSession :: "admin_store \<Rightarrow> admin_store" where
  "clearSession s = s\<lparr>session := None\<rparr>"

text \<open>\<open>isLoggedIn\<close> returns its answer together with the storage it leaves behind.\<close>

definition isLoggedIn :: "ms \<Rightarrow> admin_store \<Rightarrow> bool \<times> admin_store" where
  "isLoggedIn now s =
     (case getSession s of
        None \<Rightarrow> (False, s)
      | Some se \<Rightarrow> if expiresAt se < now then (False, clearSession s) else (True, s))"

text \<open>
  \<open>createToken\<close>: sixteen random bytes, each rendered as two lower-case hexadecimal digits.
\<close>

definition hexdigit :: "nat \<Rightarrow> 16 word" where
  "hexdigit d = of_nat (if d < 10 then 48 + d else 87 + d)"

definition createToken :: "bytes \<Rightarrow> js_string" where
  "createToken rnd = concat (map (\<lambda>b. [hexdigit (unat b div 16), hexdigit (unat b mod 16)]) rnd)"

definition refreshSession :: "ms \<Rightarrow> admin_store \<Rightarrow> admin_store" where
  "refreshSession now s =
     (case getSession s of
        None \<Rightarrow> s
      | Some se \<Rightarrow>
          (let extended = se\<lparr>expiresAt := now + 30 * 60 * 1000, lastActivity := now\<rparr>
           in setSession extended s))"

definition logout :: "admin_store \<Rightarrow> admin_store" where
  "logout s = clearSession s"

section \<open>The administrator gateway\<close>

text \<open>
  \<open>login(email, password)\<close>. \<open>now\<close> is the clock read by \<open>isLockedOut\<close>; \<open>now2\<close> is the
  clock read after the awaited verification, by \<open>setSession\<close>'s object literal or by
  \<open>recordFailure\<close>; \<open>rnd\<close> are the random bytes drawn by \<open>createToken\<close>. The result pairs
  what the call returns (or the exception it rejects with) with the storage afterwards.
\<close>

definition login ::
  "kdf \<Rightarrow> ms \<Rightarrow> ms \<Rightarrow> bytes \<Rightarrow> js_string \<Rightarrow> js_string \<Rightarrow> admin_store
     \<Rightarrow> (exn + outcome) \<times> admin_store" where
  "login kdf now now2 rnd em password s =
     (if isLockedOut now s then (Inr \<lparr>ok = False, reason = Some Locked\<rparr>, s)
      else case getAuth s of
        None \<Rightarrow> (Inr \<lparr>ok = False, reason = Some SetupRequired\<rparr>, s)
      | Some a \<Rightarrow>
          (case verifyPassword kdf password a of
             Inl e \<Rightarrow> (Inl e, s)
           | Inr v \<Rightarrow>
               if v \<and> em = email a
               then (Inr \<lparr>ok = True, reason = None\<rparr>,
                     setSession \<lparr>token = createToken rnd, s_email = em, s_createdAt = now2,
                                 expiresAt = now2 + 30 * 60 * 1000, lastActivity = now2\<rparr>
                       (resetLockout s))
               else (Inr \<lparr>ok = False, reason = Some Invalid\<rparr>, recordFailure now2 s)))"

text \<open>
  The password test of \<open>setupAdmin\<close>: \<open>password.length >= 8\<close>, \<open>/[A-Za-z]/.test(password)\<close>
  and \<open>/\d/.test(password)\<close>, on code units. The first conjunct of the source,
  \<open>typeof password === 'string'\<close>, holds for every value of the type \<open>js_string\<close>.
\<close>

definition is_letter :: "16 word \<Rightarrow> bool" where
  "is_letter c = ((65 \<le> c \<and> c \<le> 90) \<or> (97 \<le> c \<and> c \<le> 122))"

definition is_digit :: "16 word \<Rightarrow> bool" where
  "is_digit c = (48 \<le> c \<and> c \<le> 57)"

definition strong :: "js_string \<Rightarrow> bool" where
  "strong password =
     (length password \<ge> 8 \<and> list_ex is_letter password \<and> list_ex is_digit password)"

text \<open>
  \<open>setupAdmin(email, password)\<close>; \<open>rnd\<close> is the random salt drawn inside \<open>hashPassword\<close>,
  \<open>now\<close> the clock read for \<open>createdAt\<close>.
\<close>

definition setupAdmin ::
  "kdf \<Rightarrow> ms \<Rightarrow> bytes \<Rightarrow> js_string \<Rightarrow> js_string \<Rightarrow> admin_store
     \<Rightarrow> (exn + outcome) \<times> admin_store" where
  "setupAdmin kdf now rnd em password s =
     (if \<not> strong password then (Inr \<lparr>ok = False, reason = Some Weak\<rparr>, s)
      else case hashPassword kdf rnd password None 150000 of
        Inl e \<Rightarrow> (Inl e, s)
      | Inr hp \<Rightarrow>
          (Inr \<lparr>ok = True, reason = None\<rparr>,
           resetLockout
             (setAuth \<lparr>salt = salt hp, iterations = iterations hp, hash = hash hp,
                       email = em, createdAt = now, version = 1\<rparr> s)))"

text \<open>
  The click handler of the login button, after it has trimmed the two input fields. It
  calls \<open>setupAdmin\<close> only while \<open>hasAuth()\<close> is false, and logs in right after a
  successful setup; otherwise it calls \<open>login\<close>. \<open>t0\<close> and \<open>rnd0\<close> are the clock and the
  random salt used by \<open>setupAdmin\<close>.
\<close>

datatype admin_ui =
    EnterEmailAndPassword
  | SetupReturned outcome
  | LoginAfterSetup outcome
  | LoginReturned outcome

definition loginClick ::
  "kdf \<Rightarrow> ms \<Rightarrow> bytes \<Rightarrow> ms \<Rightarrow> ms \<Rightarrow> bytes \<Rightarrow> js_string \<Rightarrow> js_string \<Rightarrow> admin_store
     \<Rightarrow> (exn + admin_ui) \<times> admin_store" where
  "loginClick kdf t0 rnd0 now now2 rnd em pass s =
     (if em = [] \<or> pass = [] then (Inr EnterEmailAndPassword, s)
      else if \<not> hasAuth s then
        (case setupAdmin kdf t0 rnd0 em pass s of
           (Inl e, s1) \<Rightarrow> (Inl e, s1)
         | (Inr res, s1) \<Rightarrow>
             if \<not> ok res then (Inr (SetupReturned res), s1)
             else (case login kdf now now2 rnd em pass s1 of
                     (Inl e, s2) \<Rightarrow> (Inl e, s2)
                   | (Inr r, s2) \<Rightarrow> (Inr (LoginAfterSetup r), s2)))
      else
        (case login kdf now now2 rnd em pass s of
           (Inl e, s1) \<Rightarrow> (Inl e, s1)
         | (Inr r, s1) \<Rightarrow> (Inr (LoginReturned r), s1)))"

text \<open>
  The events that touch the administrator's storage: a click on the login button, page
  load (\<open>init\<close> calls \<open>isLoggedIn\<close>), the debounced activity handler (\<open>refreshSession\<close>) and a
  click on the logout button. A click reads the wall clock before and after the awaited
  key derivation; \<open>clock_ok\<close> says that the second reading is not earlier than the first,
  which the code does not check. A storage is \<open>reachable\<close> when some sequence of events,
  with any clock readings, leads to it from the empty storage.
\<close>

datatype admin_event =
    LoginClick ms bytes ms ms bytes js_string js_string
  | Init ms
  | Activity ms
  | LogoutClick

fun fire :: "kdf \<Rightarrow> admin_event \<Rightarrow> admin_store \<Rightarrow> admin_store" where
  "fire kdf (LoginClick t0 rnd0 now now2 rnd em pass) s =
     snd (loginClick kdf t0 rnd0 now now2 rnd em pass s)"
| "fire kdf (Init now) s = snd (isLoggedIn now s)"
| "fire kdf (Activity now) s = refreshSession now s"
| "fire kdf LogoutClick s = logout s"

fun clock_ok :: "admin_event \<Rightarrow> bool" where
  "clock_ok (LoginClick t0 rnd0 now now2 rnd em pass) = (now \<le> now2)"
| "clock_ok _ = True"

fun login_succeeded :: "kdf \<Rightarrow> admin_event \<Rightarrow> admin_store \<Rightarrow> bool" where
  "login_succeeded kdf (LoginClick t0 rnd0 now now2 rnd em pass) s =
     (case fst (loginClick kdf t0 rnd0 now now2 rnd em pass s) of
        Inr (LoginReturned r) \<Rightarrow> ok r
      | Inr (LoginAfterSetup r) \<Rightarrow> ok r
      | _ \<Rightarrow> False)"
| "login_succeeded kdf _ s = False"

definition empty_store :: admin_store where
  "empty_store = \<lparr>auth = None, lockout = None, session = None\<rparr>"

inductive reachable :: "kdf \<Rightarrow> admin_store \<Rightarrow> bool" for kdf :: kdf where
  start: "reachable kdf empty_store"
| step: "reachable kdf s \<Longrightarrow> reachable kdf (fire kdf ev s)"

section \<open>The customer surface\<close>

text \<open>
  The entries of \<open>usersDB\<close>, the value under \<open>userSession\<close>, the \<open>profile\<close> object and the
  entries of the \<open>users\<close> list shown to the administrator.
\<close>

record user =
  u_id :: js_string
  u_name :: js_string
  u_email :: js_string
  u_phone :: js_string
  u_address :: js_string
  pass :: hashed

record user_session =
  uid :: js_string
  us_email :: js_string
  us_createdAt :: ms
  us_expiresAt :: ms

record profile_rec =
  p_name :: js_string
  p_email :: js_string
  p_phone :: js_string
  p_address :: js_string
  p_notes :: js_string

record admin_user =
  au_id :: js_string
  au_name :: js_string
  au_email :: js_string
  au_phone :: js_string
  au_address :: js_string

record customer_store =
  usersDB :: "user list option"
  userSession :: "user_session option"
  profile :: "profile_rec option"
  users :: "admin_user list option"

text \<open>Outcomes of \<open>signupUser\<close> and \<open>loginUser\<close>: \<open>{ ok, reason?, user? }\<close>.\<close>

record user_outcome = outcome +
  user :: "user option"

text \<open>\<open>pbkdf2(password, saltBytes, iterations = 120000)\<close> returns the key in base64.\<close>

definition pbkdf2 :: "kdf \<Rightarrow> js_string \<Rightarrow> bytes \<Rightarrow> nat \<Rightarrow> exn + js_string" where
  "pbkdf2 kdf password saltBytes its =
     (case deriveKey kdf password saltBytes its of
        Inl e \<Rightarrow> Inl e
      | Inr raw \<Rightarrow> Inr (toBase64 raw))"

definition getUsersDB :: "customer_store \<Rightarrow> user list" where
  "getUsersDB s = (case usersDB s of None \<Rightarrow> [] | Some db \<Rightarrow> db)"

definition setUsersDB :: "user list \<Rightarrow> customer_store \<Rightarrow> customer_store" where
  "setUsersDB db s = s\<lparr>usersDB := Some db\<rparr>"

definition getProfile :: "customer_store \<Rightarrow> profile_rec option" where
  "getProfile s = profile s"

definition saveProfile :: "profile_rec \<Rightarrow> customer_store \<Rightarrow> customer_store" where
  "saveProfile p s = s\<lparr>profile := Some p\<rparr>"

fun findIndex :: "('a \<Rightarrow> bool) \<Rightarrow> 'a list \<Rightarrow> nat option" where
  "findIndex P [] = None"
| "findIndex P (x # xs) = (if P x then Some 0 else map_option Suc (findIndex P xs))"

text \<open>
  \<open>upsertAdminUsers\<close>; \<open>gid\<close> is the identifier \<open>generateId('user')\<close> would produce, which
  is used only when no entry matches.
\<close>

definition upsertAdminUsers ::
  "js_string \<Rightarrow> js_string \<Rightarrow> js_string \<Rightarrow> js_string \<Rightarrow> js_string \<Rightarrow> customer_store
     \<Rightarrow> customer_store" where
  "upsertAdminUsers gid name em phone address s =
     (let us = (case users s of None \<Rightarrow> [] | Some l \<Rightarrow> l);
          idx = findIndex (\<lambda>u. au_phone u = phone \<or> au_email u = em) us;
          userObj = \<lparr>au_id = (case idx of Some i \<Rightarrow> au_id (us ! i) | None \<Rightarrow> gid),
                     au_name = name, au_email = em, au_phone = phone, au_address = address\<rparr>
      in s\<lparr>users := Some (case idx of Some i \<Rightarrow> us[i := userObj] | None \<Rightarrow> us @ [userObj])\<rparr>)"

definition getUserSession :: "customer_store \<Rightarrow> user_session option" where
  "getUserSession s = userSession s"

definition setUserSession :: "user_session \<Rightarrow> customer_store \<Rightarrow> customer_store" where
  "setUserSession v s = s\<lparr>userSession := Some v\<rparr>"

definition clearUserSession :: "customer_store \<Rightarrow> customer_store" where
  "clearUserSession s = s\<lparr>userSession := None\<rparr>"

text \<open>
  \<open>signupUser({ name, email, phone, address, password })\<close>. \<open>lower\<close> stands for
  \<open>String.prototype.toLowerCase\<close>, a parameter of the model; \<open>rnd\<close> is the random salt,
  \<open>gid\<close> and \<open>gid2\<close> the identifiers produced by \<open>generateId\<close>, \<open>now\<close> the clock.
\<close>

definition signupUser ::
  "(js_string \<Rightarrow> js_string) \<Rightarrow> kdf \<Rightarrow> ms \<Rightarrow> bytes \<Rightarrow> js_string \<Rightarrow> js_string
     \<Rightarrow> js_string \<Rightarrow> js_string \<Rightarrow> js_string \<Rightarrow> js_string \<Rightarrow> js_string \<Rightarrow> customer_store
     \<Rightarrow> (exn + user_outcome) \<times> customer_store" where
  "signupUser lower kdf now rnd gid gid2 name em phone address password s =
     (let db = getUsersDB s in
      if list_ex (\<lambda>u. lower (u_email u) = lower em) db
      then (Inr \<lparr>ok = False, reason = Some Exists, user = None\<rparr>, s)
      else case pbkdf2 kdf password rnd 120000 of
        Inl e \<Rightarrow> (Inl e, s)
      | Inr h \<Rightarrow>
          (let usr = \<lparr>u_id = gid, u_name = name, u_email = em, u_phone = phone,
                      u_address = address,
                      pass = \<lparr>salt = toBase64 rnd, iterations = 120000, hash = h\<rparr>\<rparr>;
               s1 = setUsersDB (db @ [usr]) s;
               s2 = saveProfile \<lparr>p_name = name, p_email = em, p_phone = phone,
                                 p_address = address, p_notes = []\<rparr> s1;
               s3 = upsertAdminUsers gid2 name em phone address s2;
               s4 = setUserSession \<lparr>uid = u_id usr, us_email = u_email usr, us_createdAt = now,
                                     us_expiresAt = now + 30 * 60 * 1000\<rparr> s3
           in (Inr \<lparr>ok = True, reason = None, user = Some usr\<rparr>, s4)))"

text \<open>\<open>loginUser(email, password)\<close>; \<open>user.pass.iterations||120000\<close> replaces a stored zero.\<close>

definition loginUser ::
  "(js_string \<Rightarrow> js_string) \<Rightarrow> kdf \<Rightarrow> ms \<Rightarrow> js_string \<Rightarrow> js_string \<Rightarrow> js_string
     \<Rightarrow> customer_store \<Rightarrow> (exn + user_outcome) \<times> customer_store" where
  "loginUser lower kdf now gid em password s =
     (let db = getUsersDB s in
      case find (\<lambda>u. lower (u_email u) = lower em) db of
        None \<Rightarrow> (Inr \<lparr>ok = False, reason = None, user = None\<rparr>, s)
      | Some usr \<Rightarrow>
          (case fromBase64 (salt (pass usr)) of
             Inl e \<Rightarrow> (Inl e, s)
           | Inr slt \<Rightarrow>
               (case pbkdf2 kdf password slt
                       (if iterations (pass usr) = 0 then 120000 else iterations (pass usr)) of
                  Inl e \<Rightarrow> (Inl e, s)
                | Inr calc \<Rightarrow>
                    if calc \<noteq> hash (pass usr)
                    then (Inr \<lparr>ok = False, reason = None, user = None\<rparr>, s)
                    else
                      (let s1 = setUserSession \<lparr>uid = u_id usr, us_email = u_email usr,
                                   us_createdAt = now, us_expiresAt = now + 30 * 60 * 1000\<rparr> s;
                           s2 = saveProfile \<lparr>p_name = u_name usr, p_email = u_email usr,
                                   p_phone = u_phone usr, p_address = u_address usr,
                                   p_notes = (case getProfile s1 of None \<Rightarrow> []
                                              | Some p \<Rightarrow> p_notes p)\<rparr> s1;
                           s3 = upsertAdminUsers gid (u_name usr) (u_email usr) (u_phone usr)
                                   (u_address usr) s2
                       in (Inr \<lparr>ok = True, reason = None, user = Some usr\<rparr>, s3)))))"

text \<open>
  \<open>isUserLoggedIn\<close> is \<open>!!(s && s.expiresAt > Date.now())\<close>; like \<open>isLoggedIn\<close> it is
  modelled with the storage it leaves behind, which here is always the storage it found.
\<close>

definition isUserLoggedIn :: "ms \<Rightarrow> customer_store \<Rightarrow> bool \<times> customer_store" where
  "isUserLoggedIn now s =
     (case getUserSession s of
        None \<Rightarrow> (False, s)
      | Some se \<Rightarrow> (us_expiresAt se > now, s))"

definition refreshUserSession :: "ms \<Rightarrow> customer_store \<Rightarrow> customer_store" where
  "refreshUserSession now s =
     (case getUserSession s of
        None \<Rightarrow> s
      | Some se \<Rightarrow> setUserSession (se\<lparr>us_expiresAt := now + 30 * 60 * 1000\<rparr>) s)"

text \<open>
  The click handler of the signup button, after it has trimmed the six input fields: it
  shows a message and returns without calling \<open>signupUser\<close> when a field is empty, when the
  password has fewer than eight code units, or when the two passwords differ.
\<close>

datatype signup_ui =
    PleaseFillAllFields
  | PasswordTooShort
  | PasswordsDoNotMatch
  | SignupReturned user_outcome

definition signupClick ::
  "(js_string \<Rightarrow> js_string) \<Rightarrow> kdf \<Rightarrow> ms \<Rightarrow> bytes \<Rightarrow> js_string \<Rightarrow> js_string
     \<Rightarrow> js_string \<Rightarrow> js_string \<Rightarrow> js_string \<Rightarrow> js_string \<Rightarrow> js_string \<Rightarrow> js_string
     \<Rightarrow> customer_store \<Rightarrow> (exn + signup_ui) \<times> customer_store" where
  "signupClick lower kdf now rnd gid gid2 name em phone address pass1 pass2 s =
     (if name = [] \<or> em = [] \<or> phone = [] \<or> address = [] \<or> pass1 = [] \<or> pass2 = []
      then (Inr PleaseFillAllFields, s)
      else if length pass1 < 8 then (Inr PasswordTooShort, s)
      else if pass1 \<noteq> pass2 then (Inr PasswordsDoNotMatch, s)
      else (case signupUser lower kdf now rnd gid gid2 name em phone address pass1 s of
              (Inl e, s1) \<Rightarrow> (Inl e, s1)
            | (Inr res, s1) \<Rightarrow> (Inr (SignupReturned res), s1)))"

section \<open>Concrete values for instantiating the theorems\<close>

text \<open>
  A stand-in derivation function, used only where a theorem is instantiated at a concrete
  input; \<open>js\<close> writes an ASCII string as code units; \<open>ascii_lower\<close> is \<open>toLowerCase\<close> on
  ASCII strings; \<open>no_customer\<close> is the customer storage before any key is written.
  \<open>first_click\<close> is the first-run click that sets the administrator up with the password
  \<open>abcd1234\<close> and logs in; \<open>demo_store c l\<close> is the storage it leaves, with the lockout
  record replaced by \<open>{ count: c, lockUntil: l }\<close>; \<open>wrong_click\<close> is a click with a wrong
  password and the two given clock readings.
\<close>

definition kdf_stub :: kdf where
  "kdf_stub password slt its = of_nat (length password) # slt"

definition js :: "string \<Rightarrow> js_string" where
  "js cs = map (\<lambda>c. of_nat (of_char c)) cs"

definition ascii_lower :: "js_string \<Rightarrow> js_string" where
  "ascii_lower cs = map (\<lambda>c. if 65 \<le> c \<and> c \<le> 90 then c + 32 else c) cs"

definition no_customer :: customer_store where
  "no_customer = \<lparr>usersDB = None, userSession = None, profile = None, users = None\<rparr>"

definition demo_user :: user where
  "demo_user =
     \<lparr>u_id = js ''u0'', u_name = js ''Ann'', u_email = js ''Ann@X.Y'', u_phone = js ''123'',
      u_address = js ''Road'',
      pass = \<lparr>salt = toBase64 [9], iterations = 120000,
              hash = toBase64 (kdf_stub (js ''abcdefgh'') [9] 120000)\<rparr>\<rparr>"

definition first_click :: admin_event where
  "first_click = LoginClick 0 [1, 2, 3] 100 200 [7] (js ''a@b.c'') (js ''abcd1234'')"

definition wrong_click :: "ms \<Rightarrow> ms \<Rightarrow> admin_event" where
  "wrong_click now now2 = LoginClick 0 [] now now2 [7] (js ''a@b.c'') (js ''wrong1234'')"

definition demo_auth :: auth_rec where
  "demo_auth =
     \<lparr>salt = toBase64 [1, 2, 3], iterations = 150000,
      hash = toBase64 (kdf_stub (js ''abcd1234'') [1, 2, 3] 150000),
      email = js ''a@b.c'', createdAt = 0, version = 1\<rparr>"

definition demo_store :: "int \<Rightarrow> ms \<Rightarrow> admin_store" where
  "demo_store c l =
     \<lparr>auth = Some demo_auth,
      lockout = Some \<lparr>count = c, lockUntil = l\<rparr>,
      session = Some \<lparr>token = createToken [7], s_email = js ''a@b.c'', s_createdAt = 200,
                       expiresAt = 1800200, lastActivity = 200\<rparr>\<rparr>"

section \<open>Base64 decoding inverts encoding\<close>

lemma unat_byte: "unat (a :: 8 word) < 256"
  using unsigned_less [of a, where ?'a = nat] by simp

lemma div_65536: "y < 256 \<Longrightarrow> z < 256 \<Longrightarrow> (x * 65536 + y * 256 + z) div 65536 = (x::nat)"
  by simp

lemma div_256_mod: "y < 256 \<Longrightarrow> z < 256 \<Longrightarrow> (x * 65536 + y * 256 + z) div 256 mod 256 = (y::nat)"
proof -
  assume y: "y < 256" and z: "z < 256"
  have "(x * 65536 + y * 256 + z) div 256 = x * 256 + y" using z by simp
  then show ?thesis using y by simp
qed

lemma mod_256: "z < 256 \<Longrightarrow> (x * 65536 + y * 256 + z) mod 256 = (z::nat)"
proof -
  have "x * 65536 + y * 256 + z = (x * 256 + y) * 256 + z" by simp
  then show "z < 256 \<Longrightarrow> ?thesis" by (simp only: mod_mult_self3 mod_less)
qed

lemma regroup:
  "n div 262144 * 262144 + n div 4096 mod 64 * 4096 + n div 64 mod 64 * 64 + n mod 64 = (n::nat)"
proof -
  define a where "a = n div 64"
  define b where "b = a div 64"
  define c where "c = b div 64"
  have e1: "n div 4096 = b" by (simp add: a_def b_def div_mult2_eq)
  have e2: "n div 262144 = c" by (simp add: a_def b_def c_def div_mult2_eq)
  have "a * 64 + n mod 64 = n" "b * 64 + a mod 64 = a" "c * 64 + b mod 64 = b"
    by (simp_all add: a_def b_def c_def)
  then show ?thesis
    unfolding e1 e2 a_def [symmetric] by linarith
qed

lemma regroup3:
  "n mod 64 = 0 \<Longrightarrow>
   n div 262144 * 262144 + n div 4096 mod 64 * 4096 + n div 64 mod 64 * 64 = (n::nat)"
  using regroup [of n] by simp

lemma regroup2:
  "n mod 4096 = 0 \<Longrightarrow> n div 262144 * 262144 + n div 4096 mod 64 * 4096 = (n::nat)"
proof -
  assume h: "n mod 4096 = 0"
  then have "4096 dvd n" by (simp add: dvd_eq_mod_eq_0)
  then obtain k where k: "n = 4096 * k" by (rule dvdE)
  have "n = 64 * (64 * k)" unfolding k by simp
  then have m: "n mod 64 = 0" by (simp only: mod_mult_self1_is_0)
  have "n div 64 = 64 * k" unfolding k by simp
  then have "n div 64 mod 64 = 0" by (simp only: mod_mult_self1_is_0)
  then show ?thesis using regroup [of n] m by simp
qed

lemma three_octets:
  fixes a b c :: "8 word"
  defines "n \<equiv> unat a * 65536 + unat b * 256 + unat c"
  shows "(of_nat (n div 65536) :: 8 word) = a" "(of_nat (n div 256 mod 256) :: 8 word) = b"
        "(of_nat (n mod 256) :: 8 word) = c"
  unfolding n_def by (simp_all add: div_65536 div_256_mod mod_256 unat_byte del: of_nat_add of_nat_mult)

lemma two_octets:
  fixes a b :: "8 word"
  defines "n \<equiv> unat a * 65536 + unat b * 256"
  shows "(of_nat (n div 65536) :: 8 word) = a" "(of_nat (n div 256 mod 256) :: 8 word) = b"
        "n mod 64 = 0"
proof -
  show "(of_nat (n div 65536) :: 8 word) = a"
    unfolding n_def using div_65536 [of "unat b" 0 "unat a"] unat_byte [of b] by simp
  show "(of_nat (n div 256 mod 256) :: 8 word) = b"
    unfolding n_def using div_256_mod [of "unat b" 0 "unat a"] unat_byte [of b] by simp
  have "n = 64 * (unat a * 1024 + unat b * 4)" unfolding n_def by simp
  then show "n mod 64 = 0" by (simp only: mod_mult_self1_is_0)
qed

lemma one_octet:
  fixes a :: "8 word"
  defines "n \<equiv> unat a * 65536"
  shows "(of_nat (n div 65536) :: 8 word) = a" "n mod 4096 = 0"
proof -
  show "(of_nat (n div 65536) :: 8 word) = a" unfolding n_def by simp
  have "n = 4096 * (unat a * 16)" unfolding n_def by simp
  then show "n mod 4096 = 0" by (simp only: mod_mult_self1_is_0)
qed

lemma octets_sextets: "octets (sextets bs) = bs"
proof (induction bs rule: sextets.induct)
  case (1 a b c xs)
  then show ?case
    by (simp only: sextets.simps octets.simps Let_def regroup three_octets)
next
  case (2 a b)
  show ?case
    by (simp only: sextets.simps octets.simps Let_def regroup3 [OF two_octets(3)] two_octets(1,2))
next
  case (3 a)
  show ?case
    by (simp only: sextets.simps octets.simps Let_def regroup2 [OF one_octet(2)] one_octet(1))
next
  case 4
  show ?case by simp
qed

lemma b64val_b64char: "i < 64 \<Longrightarrow> b64val (b64char i) = Some i"
  by (auto simp add: b64val_def b64char_def unat_of_nat Let_def)

lemma unat_b64char:
  "i < 64 \<Longrightarrow> unat (b64char i) =
     (if i < 26 then 65 + i else if i < 52 then 71 + i else if i < 62 then i - 4
      else if i = 62 then 43 else 47)"
  by (auto simp add: b64char_def unat_of_nat)

lemma b64char_not_pad: "i < 64 \<Longrightarrow> b64char i \<noteq> 61"
proof
  assume i: "i < 64" and "b64char i = 61"
  then have "unat (b64char i) = 61" by simp
  with i show False
    by (simp add: unat_b64char split: if_splits)
qed

lemma b64char_not_ws: "i < 64 \<Longrightarrow> \<not> ascii_whitespace (b64char i)"
proof
  assume i: "i < 64" and "ascii_whitespace (b64char i)"
  then have "unat (b64char i) = 9 \<or> unat (b64char i) = 10 \<or> unat (b64char i) = 12
             \<or> unat (b64char i) = 13 \<or> unat (b64char i) = 32"
    by (auto simp add: ascii_whitespace_def)
  with i show False
    by (auto simp add: unat_b64char split: if_splits)
qed

lemma top_sextet: "n < 16777216 \<Longrightarrow> n div 262144 < (64::nat)"
  by (rule less_mult_imp_div_less) simp

lemma sextets_bound: "x \<in> set (sextets bs) \<Longrightarrow> x < 64"
proof (induction bs arbitrary: x rule: sextets.induct)
  case (1 a b c xs)
  have "unat a * 65536 + unat b * 256 + unat c < 16777216"
    using unat_byte [of a] unat_byte [of b] unat_byte [of c] by linarith
  then have "(unat a * 65536 + unat b * 256 + unat c) div 262144 < 64" by (rule top_sextet)
  with 1 show ?case by (auto simp add: Let_def)
next
  case (2 a b)
  have "unat a * 65536 + unat b * 256 < 16777216"
    using unat_byte [of a] unat_byte [of b] by linarith
  then have "(unat a * 65536 + unat b * 256) div 262144 < 64" by (rule top_sextet)
  with 2 show ?case by (auto simp add: Let_def)
next
  case (3 a)
  have "unat a * 65536 < 16777216"
    using unat_byte [of a] by linarith
  then have "(unat a * 65536) div 262144 < 64" by (rule top_sextet)
  with 3 show ?case by (auto simp add: Let_def)
next
  case 4
  then show ?case by simp
qed

lemma those_b64val:
  "\<forall>x\<in>set sx. x < 64 \<Longrightarrow> those (map b64val (map b64char sx)) = Some sx"
  by (induction sx) (simp_all add: b64val_b64char)

lemma length_sextets_mod:
  "length (sextets bs) mod 4 = (4 - (3 - length bs mod 3) mod 3) mod 4"
proof (induction bs rule: sextets.induct)
  case (1 a b c xs)
  have "length (a # b # c # xs) mod 3 = length xs mod 3" by simp
  moreover have "length (sextets (a # b # c # xs)) mod 4 = length (sextets xs) mod 4"
    by (simp add: Let_def)
  ultimately show ?case using 1 by (simp only:)
qed (simp_all add: Let_def)

lemma pad_cases:
  "(3 - n mod 3) mod 3 = (0::nat) \<or> (3 - n mod 3) mod 3 = 1 \<or> (3 - n mod 3) mod 3 = 2"
proof -
  have "(3 - n mod 3) mod 3 < 3" by simp
  then show ?thesis by linarith
qed

lemma strip_padding_body:
  assumes len: "(length body + k) mod 4 = 0"
      and k: "k \<le> 2"
      and body: "\<forall>c\<in>set body. c \<noteq> 61"
  shows "strip_padding (body @ replicate k 61) = body"
proof -
  have lastb: "body \<noteq> [] \<Longrightarrow> last body \<noteq> 61"
    using body last_in_set by blast
  consider "k = 0" | "k = 1" | "k = 2" using k by linarith
  then show ?thesis
  proof cases
    case 1
    then show ?thesis
      using lastb by (cases "body = []") (auto simp add: strip_padding_def)
  next
    case 2
    with len have "body \<noteq> []" by auto
    with 2 len lastb show ?thesis
      by (simp add: strip_padding_def)
  next
    case 3
    then have r: "replicate k (61 :: 16 word) = [61, 61]"
      by (simp add: numeral_2_eq_2)
    have "butlast (butlast (body @ [61, 61 :: 16 word])) = body"
      by (simp add: butlast_append)
    moreover have "last (butlast (body @ [61, 61 :: 16 word])) = 61"
      by (simp add: butlast_append)
    ultimately show ?thesis
      using len 3 unfolding r by (simp add: strip_padding_def)
  qed
qed

lemma fromBase64_toBase64: "fromBase64 (toBase64 bs) = Inr bs"
proof -
  define body where "body = map b64char (sextets bs)"
  define k where "k = (3 - length bs mod 3) mod 3"
  have enc: "toBase64 bs = body @ replicate k 61"
    by (simp add: toBase64_def body_def k_def)
  have k: "k = 0 \<or> k = 1 \<or> k = 2" unfolding k_def by (rule pad_cases)
  have lm: "length body mod 4 = (4 - k) mod 4"
    unfolding body_def k_def by (simp add: length_sextets_mod)
  have nopad: "\<forall>c\<in>set body. c \<noteq> 61"
    unfolding body_def using sextets_bound b64char_not_pad by auto
  have nows: "\<forall>c\<in>set body. \<not> ascii_whitespace c"
    unfolding body_def using sextets_bound b64char_not_ws by auto
  have "\<not> ascii_whitespace 61" by (simp add: ascii_whitespace_def)
  with nows have filt: "filter (\<lambda>c. \<not> ascii_whitespace c) (body @ replicate k 61) = body @ replicate k 61"
    by (auto simp add: filter_id_conv)
  have "(length body + k) mod 4 = (length body mod 4 + k) mod 4"
    by (simp add: mod_add_left_eq)
  then have len: "(length body + k) mod 4 = 0"
    using lm k by auto
  have strip: "strip_padding (body @ replicate k 61) = body"
    using len k nopad by (intro strip_padding_body) auto
  have ne1: "length body mod 4 \<noteq> 1" using lm k by auto
  have th: "those (map b64val body) = Some (sextets bs)"
    unfolding body_def using sextets_bound by (intro those_b64val) auto
  show ?thesis
    unfolding fromBase64_def enc filt strip using ne1 th
    by (simp add: octets_sextets)
qed

lemma toBase64_inj: "toBase64 a = toBase64 b \<longleftrightarrow> a = b"
  by (metis fromBase64_toBase64 sum.inject(2))

section \<open>Properties of the lockout policy\<close>

lemma getLockout_recordFailure:
  "getLockout (recordFailure now s) =
     \<lparr>count = count (getLockout s) + 1,
      lockUntil = (if count (getLockout s) + 1 \<ge> 5
                   then now + min (count (getLockout s) + 1 - 4) 6 * 60000
                   else lockUntil (getLockout s))\<rparr>"
  by (simp add: recordFailure_def getLockout_def setLockout_def Let_def)

text \<open>
  Claim C1. Let \<open>n\<close> be the failure count after \<open>recordFailure\<close>. If \<open>n \<ge> 5\<close> the stored
  \<open>lockUntil\<close> is exactly \<open>now + min (n - 4) 6\<close> minutes: one minute at the 5th failure,
  six minutes at the 10th, and never more than six minutes afterwards. If \<open>n < 5\<close> the
  call sets no lock: \<open>lockUntil\<close> keeps its previous value.
\<close>

theorem recordFailure_lock_window:
  "count (getLockout (recordFailure now s)) = n \<Longrightarrow>
   lockUntil (getLockout (recordFailure now s)) = lu \<Longrightarrow>
     n = count (getLockout s) + 1
     \<and> (n \<ge> 5 \<longrightarrow> lu = now + min (n - 4) 6 * 60000)
     \<and> (n = 5 \<longrightarrow> lu = now + 1 * 60000)
     \<and> (n = 10 \<longrightarrow> lu = now + 6 * 60000)
     \<and> (n > 10 \<longrightarrow> lu = now + 6 * 60000)
     \<and> (n \<ge> 5 \<longrightarrow> lu - now \<le> 6 * 60000)
     \<and> (n < 5 \<longrightarrow> lu = lockUntil (getLockout s))"
  by (auto simp add: getLockout_recordFailure)

theorem recordFailure_lock_window_witness:
  "count (getLockout (recordFailure 1000
      \<lparr>auth = None, lockout = Some \<lparr>count = 4, lockUntil = 0\<rparr>, session = None\<rparr>)) = 5
   \<and> lockUntil (getLockout (recordFailure 1000
      \<lparr>auth = None, lockout = Some \<lparr>count = 4, lockUntil = 0\<rparr>, session = None\<rparr>)) = 61000
   \<and> count (getLockout (recordFailure 1000
      \<lparr>auth = None, lockout = Some \<lparr>count = 9, lockUntil = 61000\<rparr>, session = None\<rparr>)) = 10
   \<and> lockUntil (getLockout (recordFailure 1000
      \<lparr>auth = None, lockout = Some \<lparr>count = 9, lockUntil = 0\<rparr>, session = None\<rparr>)) = 361000
   \<and> count (getLockout (recordFailure 1000
      \<lparr>auth = None, lockout = Some \<lparr>count = 10, lockUntil = 0\<rparr>, session = None\<rparr>)) = 11
   \<and> lockUntil (getLockout (recordFailure 1000
      \<lparr>auth = None, lockout = Some \<lparr>count = 10, lockUntil = 0\<rparr>, session = None\<rparr>)) = 361000
   \<and> count (getLockout (recordFailure 1000
      \<lparr>auth = None, lockout = Some \<lparr>count = 2, lockUntil = 77\<rparr>, session = None\<rparr>)) = 3
   \<and> lockUntil (getLockout (recordFailure 1000
      \<lparr>auth = None, lockout = Some \<lparr>count = 2, lockUntil = 77\<rparr>, session = None\<rparr>)) = 77"
  using recordFailure_lock_window
          [of 1000 "\<lparr>auth = None, lockout = Some \<lparr>count = 4, lockUntil = 0\<rparr>, session = None\<rparr>"
              5 61000]
        recordFailure_lock_window
          [of 1000 "\<lparr>auth = None, lockout = Some \<lparr>count = 9, lockUntil = 0\<rparr>, session = None\<rparr>"
              10 361000]
        recordFailure_lock_window
          [of 1000 "\<lparr>auth = None, lockout = Some \<lparr>count = 10, lockUntil = 0\<rparr>, session = None\<rparr>"
              11 361000]
        recordFailure_lock_window
          [of 1000 "\<lparr>auth = None, lockout = Some \<lparr>count = 2, lockUntil = 77\<rparr>, session = None\<rparr>"
              3 77]
  by (simp add: getLockout_def recordFailure_def setLockout_def)

section \<open>Properties of the administrator login\<close>

lemma verifyPassword_demo: "verifyPassword kdf_stub (js ''abcd1234'') demo_auth = Inr True"
  by (simp add: verifyPassword_def demo_auth_def fromBase64_toBase64 deriveKey_def)

lemma verifyPassword_demo_wrong: "verifyPassword kdf_stub (js ''wrong1234'') demo_auth = Inr False"
  by (simp add: verifyPassword_def demo_auth_def fromBase64_toBase64 deriveKey_def toBase64_inj
        kdf_stub_def js_def)

text \<open>
  Claim C2. Whenever the lockout window is active (\<open>lockUntil > now\<close>), \<open>login\<close> returns
  \<open>{ ok:false, reason:'locked' }\<close> and leaves the whole storage as it was: the credential
  record, the failure count, \<open>lockUntil\<close> and the session are unchanged. The answer does not
  depend on the credential record either: whatever is stored under \<open>adminAuth\<close> (nothing, a
  valid record, or one whose verification would throw), the result is the same, so the
  check precedes every credential lookup and every failure evaluation.
\<close>

theorem login_locked_first:
  "lockUntil (getLockout s) > now \<Longrightarrow>
     login kdf now now2 rnd em pw s = (Inr \<lparr>ok = False, reason = Some Locked\<rparr>, s)
   \<and> (\<forall>a. login kdf now now2 rnd em pw (s\<lparr>auth := a\<rparr>)
            = (Inr \<lparr>ok = False, reason = Some Locked\<rparr>, s\<lparr>auth := a\<rparr>))"
  by (simp add: login_def isLockedOut_def getLockout_def)

theorem login_locked_first_witness:
  "lockUntil (getLockout \<lparr>auth = Some demo_auth, lockout = Some \<lparr>count = 5, lockUntil = 61000\<rparr>, session = None\<rparr>) > 2000
   \<and> login kdf_stub 2000 2100 [7] (js ''a@b.c'') (js ''abcd1234'')
         \<lparr>auth = Some demo_auth, lockout = Some \<lparr>count = 5, lockUntil = 61000\<rparr>, session = None\<rparr>
       = (Inr \<lparr>ok = False, reason = Some Locked\<rparr>,
          \<lparr>auth = Some demo_auth, lockout = Some \<lparr>count = 5, lockUntil = 61000\<rparr>, session = None\<rparr>)"
  using login_locked_first [of 2000
      "\<lparr>auth = Some demo_auth, lockout = Some \<lparr>count = 5, lockUntil = 61000\<rparr>, session = None\<rparr>"
      kdf_stub 2100 "[7]" "js ''a@b.c''" "js ''abcd1234''"]
  by (simp add: getLockout_def)

text \<open>
  Claim C7. Whatever the lockout state before the call (any failure count, any \<open>lockUntil\<close>),
  a login that returns \<open>ok\<close> leaves the lockout record at \<open>{ count: 0, lockUntil: 0 }\<close> and
  stores a fresh session (new token, \<open>createdAt = lastActivity = now\<close>,
  \<open>expiresAt = now + 30 min\<close>), so no later clock reading finds the account locked. Such a
  login does happen as soon as \<open>lockUntil \<le> now\<close>, that is from the very instant the lock
  window expires, when the stored password verifies and the email matches.
\<close>

theorem login_success_resets:
  "(login kdf now now2 rnd em pw s = (Inr r, s') \<and> ok r \<longrightarrow>
      lockout s' = Some \<lparr>count = 0, lockUntil = 0\<rparr>
    \<and> getLockout s' = \<lparr>count = 0, lockUntil = 0\<rparr>
    \<and> session s' = Some \<lparr>token = createToken rnd, s_email = em, s_createdAt = now2,
                           expiresAt = now2 + 30 * 60 * 1000, lastActivity = now2\<rparr>
    \<and> (\<forall>t\<ge>0. \<not> isLockedOut t s'))
   \<and> (lockUntil (getLockout s) \<le> now \<and> auth s = Some a
        \<and> verifyPassword kdf pw a = Inr True \<and> em = email a \<longrightarrow>
      fst (login kdf now now2 rnd em pw s) = Inr \<lparr>ok = True, reason = None\<rparr>)"
  by (auto simp add: login_def resetLockout_def setLockout_def setSession_def isLockedOut_def
        getLockout_def getAuth_def recordFailure_def Let_def
      split: if_splits option.splits sum.splits)

theorem login_success_resets_witness:
  "login kdf_stub 61000 61250 [7] (js ''a@b.c'') (js ''abcd1234'')
      \<lparr>auth = Some demo_auth, lockout = Some \<lparr>count = 5, lockUntil = 61000\<rparr>, session = None\<rparr>
     = (Inr \<lparr>ok = True, reason = None\<rparr>,
        \<lparr>auth = Some demo_auth, lockout = Some \<lparr>count = 0, lockUntil = 0\<rparr>,
         session = Some \<lparr>token = createToken [7], s_email = js ''a@b.c'', s_createdAt = 61250,
                           expiresAt = 1861250, lastActivity = 61250\<rparr>\<rparr>)
   \<and> \<not> isLockedOut 61250
        \<lparr>auth = Some demo_auth, lockout = Some \<lparr>count = 0, lockUntil = 0\<rparr>,
         session = Some \<lparr>token = createToken [7], s_email = js ''a@b.c'', s_createdAt = 61250,
                           expiresAt = 1861250, lastActivity = 61250\<rparr>\<rparr>"
  using login_success_resets [of kdf_stub 61000 61250 "[7]" "js ''a@b.c''" "js ''abcd1234''"
      "\<lparr>auth = Some demo_auth, lockout = Some \<lparr>count = 5, lockUntil = 61000\<rparr>, session = None\<rparr>"
      "\<lparr>ok = True, reason = None\<rparr>"
      "\<lparr>auth = Some demo_auth, lockout = Some \<lparr>count = 0, lockUntil = 0\<rparr>,
         session = Some \<lparr>token = createToken [7], s_email = js ''a@b.c'', s_createdAt = 61250,
                           expiresAt = 1861250, lastActivity = 61250\<rparr>\<rparr>"
      demo_auth]
  by (simp add: login_def isLockedOut_def getLockout_def getAuth_def verifyPassword_demo
        resetLockout_def setLockout_def setSession_def)
     (simp add: demo_auth_def)

text \<open>
  Claim C10. The administrator login returns \<open>ok\<close> only if a credential record is stored, the
  password verifies against it and the supplied email equals the stored email code unit for
  code unit. With the correct password and a different email, the call returns
  \<open>{ ok:false, reason:'invalid' }\<close> and records a failure (the count grows by one); the
  resulting storage is the one a wrong password produces.
\<close>

theorem login_requires_matching_email:
  "(login kdf now now2 rnd em pw s = (Inr r, s') \<and> ok r \<longrightarrow>
      (\<exists>a. auth s = Some a \<and> verifyPassword kdf pw a = Inr True \<and> em = email a))
   \<and> (\<not> isLockedOut now s \<and> auth s = Some a \<and> verifyPassword kdf pw a = Inr True
        \<and> em \<noteq> email a \<longrightarrow>
      login kdf now now2 rnd em pw s
        = (Inr \<lparr>ok = False, reason = Some Invalid\<rparr>, recordFailure now2 s)
      \<and> count (getLockout (recordFailure now2 s)) = count (getLockout s) + 1)
   \<and> (\<not> isLockedOut now s \<and> auth s = Some a \<and> verifyPassword kdf pw' a = Inr False \<longrightarrow>
      login kdf now now2 rnd em' pw' s
        = (Inr \<lparr>ok = False, reason = Some Invalid\<rparr>, recordFailure now2 s))"
  by (auto simp add: login_def getAuth_def getLockout_recordFailure
      split: if_splits option.splits sum.splits)

theorem login_requires_matching_email_witness:
  "\<not> isLockedOut 5000 \<lparr>auth = Some demo_auth, lockout = None, session = None\<rparr>
   \<and> verifyPassword kdf_stub (js ''abcd1234'') demo_auth = Inr True
   \<and> js ''A@b.c'' \<noteq> email demo_auth
   \<and> login kdf_stub 5000 5200 [7] (js ''A@b.c'') (js ''abcd1234'')
         \<lparr>auth = Some demo_auth, lockout = None, session = None\<rparr>
       = (Inr \<lparr>ok = False, reason = Some Invalid\<rparr>,
          \<lparr>auth = Some demo_auth, lockout = Some \<lparr>count = 1, lockUntil = 0\<rparr>, session = None\<rparr>)
   \<and> login kdf_stub 5000 5200 [7] (js ''a@b.c'') (js ''wrong1234'')
         \<lparr>auth = Some demo_auth, lockout = None, session = None\<rparr>
       = (Inr \<lparr>ok = False, reason = Some Invalid\<rparr>,
          \<lparr>auth = Some demo_auth, lockout = Some \<lparr>count = 1, lockUntil = 0\<rparr>, session = None\<rparr>)"
  using login_requires_matching_email [of kdf_stub 5000 5200 "[7]" "js ''A@b.c''" "js ''abcd1234''"
      "\<lparr>auth = Some demo_auth, lockout = None, session = None\<rparr>" _ _ demo_auth
      "js ''wrong1234''" "js ''a@b.c''"]
  by (simp add: isLockedOut_def getLockout_def verifyPassword_demo verifyPassword_demo_wrong
        recordFailure_def setLockout_def)
     (simp add: demo_auth_def js_def)

section \<open>Properties of the session functions\<close>

text \<open>
  Claim C3, as stated, fails: \<open>refreshSession\<close> does not look at \<open>expiresAt\<close>. A session
  that expired at 1800000 and is still stored is extended at time 2000000 to expire at
  3800000, and \<open>isLoggedIn\<close> then answers true.
\<close>

theorem refresh_expired_counterexample:
  "expiresAt \<lparr>token = js ''t'', s_email = js ''a@b.c'', s_createdAt = 0, expiresAt = 1800000,
                lastActivity = 0\<rparr> < 2000000
   \<and> refreshSession 2000000
        \<lparr>auth = None, lockout = None,
         session = Some \<lparr>token = js ''t'', s_email = js ''a@b.c'', s_createdAt = 0,
                          expiresAt = 1800000, lastActivity = 0\<rparr>\<rparr>
       = \<lparr>auth = None, lockout = None,
          session = Some \<lparr>token = js ''t'', s_email = js ''a@b.c'', s_createdAt = 0,
                           expiresAt = 3800000, lastActivity = 2000000\<rparr>\<rparr>
   \<and> refreshSession 2000000
        \<lparr>auth = None, lockout = None,
         session = Some \<lparr>token = js ''t'', s_email = js ''a@b.c'', s_createdAt = 0,
                          expiresAt = 1800000, lastActivity = 0\<rparr>\<rparr>
       \<noteq> \<lparr>auth = None, lockout = None,
          session = Some \<lparr>token = js ''t'', s_email = js ''a@b.c'', s_createdAt = 0,
                           expiresAt = 1800000, lastActivity = 0\<rparr>\<rparr>
   \<and> fst (isLoggedIn 2000000 (refreshSession 2000000
        \<lparr>auth = None, lockout = None,
         session = Some \<lparr>token = js ''t'', s_email = js ''a@b.c'', s_createdAt = 0,
                          expiresAt = 1800000, lastActivity = 0\<rparr>\<rparr>))"
  by (simp add: refreshSession_def getSession_def setSession_def isLoggedIn_def)

text \<open>
  Claim C3, amended. With no stored session, refresh is a no-op on both surfaces. With a
  stored session, whether still valid or already past its \<open>expiresAt\<close>, \<open>refreshSession\<close> sets
  \<open>expiresAt\<close> to now + 30 minutes and \<open>lastActivity\<close> to now and keeps the other fields;
  \<open>refreshUserSession\<close> sets \<open>expiresAt\<close> to now + 30 minutes (the customer session has no
  \<open>lastActivity\<close>). Right after either call the session counts as logged in.
\<close>

theorem refresh_extends_stored_session:
  "(session s = None \<longrightarrow> refreshSession now s = s)
   \<and> (session s = Some se \<longrightarrow>
        refreshSession now s
          = s\<lparr>session := Some (se\<lparr>expiresAt := now + 30 * 60 * 1000, lastActivity := now\<rparr>)\<rparr>
        \<and> fst (isLoggedIn now (refreshSession now s)))
   \<and> (userSession c = None \<longrightarrow> refreshUserSession now c = c)
   \<and> (userSession c = Some ue \<longrightarrow>
        refreshUserSession now c
          = c\<lparr>userSession := Some (ue\<lparr>us_expiresAt := now + 30 * 60 * 1000\<rparr>)\<rparr>
        \<and> fst (isUserLoggedIn now (refreshUserSession now c)))"
  by (simp add: refreshSession_def getSession_def setSession_def isLoggedIn_def
        refreshUserSession_def getUserSession_def setUserSession_def isUserLoggedIn_def)

theorem refresh_extends_stored_session_witness:
  "refreshSession 1740000
        \<lparr>auth = None, lockout = None,
         session = Some \<lparr>token = js ''t'', s_email = js ''a@b.c'', s_createdAt = 0,
                          expiresAt = 1800000, lastActivity = 0\<rparr>\<rparr>
       = \<lparr>auth = None, lockout = None,
          session = Some \<lparr>token = js ''t'', s_email = js ''a@b.c'', s_createdAt = 0,
                           expiresAt = 3540000, lastActivity = 1740000\<rparr>\<rparr>
   \<and> refreshSession 1740000 \<lparr>auth = None, lockout = None, session = None\<rparr>
       = \<lparr>auth = None, lockout = None, session = None\<rparr>
   \<and> refreshUserSession 1740000
        \<lparr>usersDB = None, userSession = Some \<lparr>uid = js ''u'', us_email = js ''a@b.c'',
             us_createdAt = 0, us_expiresAt = 1800000\<rparr>, profile = None, users = None\<rparr>
       = \<lparr>usersDB = None, userSession = Some \<lparr>uid = js ''u'', us_email = js ''a@b.c'',
             us_createdAt = 0, us_expiresAt = 3540000\<rparr>, profile = None, users = None\<rparr>
   \<and> refreshUserSession 1740000 \<lparr>usersDB = None, userSession = None, profile = None, users = None\<rparr>
       = \<lparr>usersDB = None, userSession = None, profile = None, users = None\<rparr>"
  using refresh_extends_stored_session [of
        "\<lparr>auth = None, lockout = None,
         session = Some \<lparr>token = js ''t'', s_email = js ''a@b.c'', s_createdAt = 0,
                          expiresAt = 1800000, lastActivity = 0\<rparr>\<rparr>" 1740000
        "\<lparr>token = js ''t'', s_email = js ''a@b.c'', s_createdAt = 0,
                          expiresAt = 1800000, lastActivity = 0\<rparr>"
        "\<lparr>usersDB = None, userSession = Some \<lparr>uid = js ''u'', us_email = js ''a@b.c'',
             us_createdAt = 0, us_expiresAt = 1800000\<rparr>, profile = None, users = None\<rparr>"
        "\<lparr>uid = js ''u'', us_email = js ''a@b.c'', us_createdAt = 0, us_expiresAt = 1800000\<rparr>"]
     refresh_extends_stored_session [of
        "\<lparr>auth = None, lockout = None, session = None\<rparr>" 1740000 _
        "\<lparr>usersDB = None, userSession = None, profile = None, users = None\<rparr>"]
  by simp

text \<open>
  Claim C4, as stated, fails on both surfaces. The administrator's \<open>isLoggedIn\<close> compares
  with a strict \<open><\<close>: a session with \<open>expiresAt = now\<close> is still reported as logged in and
  kept. The customer's \<open>isUserLoggedIn\<close> reports an expired session as not logged in but
  leaves the stale record in storage.
\<close>

theorem isLoggedIn_counterexample:
  "expiresAt \<lparr>token = js ''t'', s_email = js ''a@b.c'', s_createdAt = 0, expiresAt = 1800000,
                lastActivity = 0\<rparr> \<le> 1800000
   \<and> isLoggedIn 1800000
        \<lparr>auth = None, lockout = None,
         session = Some \<lparr>token = js ''t'', s_email = js ''a@b.c'', s_createdAt = 0,
                          expiresAt = 1800000, lastActivity = 0\<rparr>\<rparr>
       = (True, \<lparr>auth = None, lockout = None,
         session = Some \<lparr>token = js ''t'', s_email = js ''a@b.c'', s_createdAt = 0,
                          expiresAt = 1800000, lastActivity = 0\<rparr>\<rparr>)
   \<and> isUserLoggedIn 2000000
        \<lparr>usersDB = None, userSession = Some \<lparr>uid = js ''u'', us_email = js ''a@b.c'',
             us_createdAt = 0, us_expiresAt = 1800000\<rparr>, profile = None, users = None\<rparr>
       = (False, \<lparr>usersDB = None, userSession = Some \<lparr>uid = js ''u'', us_email = js ''a@b.c'',
             us_createdAt = 0, us_expiresAt = 1800000\<rparr>, profile = None, users = None\<rparr>)"
  by (simp add: isLoggedIn_def getSession_def isUserLoggedIn_def getUserSession_def)

text \<open>
  Claim C4, amended. The administrator's \<open>isLoggedIn\<close> returns false and leaves storage
  unchanged when no session is stored; returns false and deletes the session record when
  \<open>expiresAt < now\<close>; returns true and leaves storage unchanged when \<open>expiresAt > now\<close>. The
  customer's \<open>isUserLoggedIn\<close> returns false exactly when no session is stored or
  \<open>expiresAt \<le> now\<close>, and never changes storage.
\<close>

theorem isLoggedIn_expiry:
  "(session s = None \<longrightarrow> isLoggedIn now s = (False, s))
   \<and> (session s = Some se \<and> expiresAt se < now \<longrightarrow>
        isLoggedIn now s = (False, s\<lparr>session := None\<rparr>))
   \<and> (session s = Some se \<and> expiresAt se > now \<longrightarrow> isLoggedIn now s = (True, s))
   \<and> (fst (isUserLoggedIn now c) = False \<longleftrightarrow>
        userSession c = None \<or> (\<exists>ue. userSession c = Some ue \<and> us_expiresAt ue \<le> now))
   \<and> snd (isUserLoggedIn now c) = c"
  by (auto simp add: isLoggedIn_def getSession_def clearSession_def isUserLoggedIn_def
        getUserSession_def split: option.splits)

theorem isLoggedIn_expiry_witness:
  "isLoggedIn 2000000
        \<lparr>auth = None, lockout = None,
         session = Some \<lparr>token = js ''t'', s_email = js ''a@b.c'', s_createdAt = 0,
                          expiresAt = 1800000, lastActivity = 0\<rparr>\<rparr>
       = (False, \<lparr>auth = None, lockout = None, session = None\<rparr>)
   \<and> isLoggedIn 1000
        \<lparr>auth = None, lockout = None,
         session = Some \<lparr>token = js ''t'', s_email = js ''a@b.c'', s_createdAt = 0,
                          expiresAt = 1800000, lastActivity = 0\<rparr>\<rparr>
       = (True, \<lparr>auth = None, lockout = None,
         session = Some \<lparr>token = js ''t'', s_email = js ''a@b.c'', s_createdAt = 0,
                          expiresAt = 1800000, lastActivity = 0\<rparr>\<rparr>)
   \<and> isLoggedIn 1000 \<lparr>auth = None, lockout = None, session = None\<rparr>
       = (False, \<lparr>auth = None, lockout = None, session = None\<rparr>)
   \<and> fst (isUserLoggedIn 1800000
        \<lparr>usersDB = None, userSession = Some \<lparr>uid = js ''u'', us_email = js ''a@b.c'',
             us_createdAt = 0, us_expiresAt = 1800000\<rparr>, profile = None, users = None\<rparr>) = False"
  using isLoggedIn_expiry [of
        "\<lparr>auth = None, lockout = None,
         session = Some \<lparr>token = js ''t'', s_email = js ''a@b.c'', s_createdAt = 0,
                          expiresAt = 1800000, lastActivity = 0\<rparr>\<rparr>" 2000000
        "\<lparr>token = js ''t'', s_email = js ''a@b.c'', s_createdAt = 0,
                          expiresAt = 1800000, lastActivity = 0\<rparr>"]
     isLoggedIn_expiry [of
        "\<lparr>auth = None, lockout = None,
         session = Some \<lparr>token = js ''t'', s_email = js ''a@b.c'', s_createdAt = 0,
                          expiresAt = 1800000, lastActivity = 0\<rparr>\<rparr>" 1000
        "\<lparr>token = js ''t'', s_email = js ''a@b.c'', s_createdAt = 0,
                          expiresAt = 1800000, lastActivity = 0\<rparr>"]
     isLoggedIn_expiry [of "\<lparr>auth = None, lockout = None, session = None\<rparr>" 1000]
     isLoggedIn_expiry [of _ 1800000 _
        "\<lparr>usersDB = None, userSession = Some \<lparr>uid = js ''u'', us_email = js ''a@b.c'',
             us_createdAt = 0, us_expiresAt = 1800000\<rparr>, profile = None, users = None\<rparr>"]
  by simp

section \<open>Setup and signup\<close>

lemma strong_iff:
  "strong pw \<longleftrightarrow> length pw \<ge> 8 \<and> (\<exists>c\<in>set pw. is_letter c) \<and> (\<exists>c\<in>set pw. is_digit c)"
  by (simp add: strong_def list_ex_iff)

lemma setupAdmin_weak:
  "\<not> strong pw \<Longrightarrow> setupAdmin kdf now rnd em pw s = (Inr \<lparr>ok = False, reason = Some Weak\<rparr>, s)"
  by (simp add: setupAdmin_def)

lemma setupAdmin_strong:
  "strong pw \<Longrightarrow> setupAdmin kdf now rnd em pw s =
     (Inr \<lparr>ok = True, reason = None\<rparr>,
      s\<lparr>auth := Some \<lparr>salt = toBase64 rnd, iterations = 150000,
                       hash = toBase64 (kdf pw rnd 150000),
                       email = em, createdAt = now, version = 1\<rparr>,
        lockout := Some \<lparr>count = 0, lockUntil = 0\<rparr>\<rparr>)"
  by (simp add: setupAdmin_def hashPassword_def deriveKey_def resetLockout_def setLockout_def
        setAuth_def)

lemma signupUser_exists:
  "list_ex (\<lambda>u. lower (u_email u) = lower em) (getUsersDB c) \<Longrightarrow>
     signupUser lower kdf now rnd gid gid2 name em phone address pw c
       = (Inr \<lparr>ok = False, reason = Some Exists, user = None\<rparr>, c)"
  by (simp add: signupUser_def)

lemma usersDB_upsertAdminUsers [simp]:
  "usersDB (upsertAdminUsers gid name em phone address c) = usersDB c"
  by (simp add: upsertAdminUsers_def Let_def)

lemma signupUser_new:
  "\<not> list_ex (\<lambda>u. lower (u_email u) = lower em) (getUsersDB c) \<Longrightarrow>
     fst (signupUser lower kdf now rnd gid gid2 name em phone address pw c)
       = Inr \<lparr>ok = True, reason = None,
              user = Some \<lparr>u_id = gid, u_name = name, u_email = em, u_phone = phone,
                             u_address = address,
                             pass = \<lparr>salt = toBase64 rnd, iterations = 120000,
                                     hash = toBase64 (kdf pw rnd 120000)\<rparr>\<rparr>\<rparr>
   \<and> usersDB (snd (signupUser lower kdf now rnd gid gid2 name em phone address pw c))
       = Some (getUsersDB c @
               [\<lparr>u_id = gid, u_name = name, u_email = em, u_phone = phone,
                 u_address = address,
                 pass = \<lparr>salt = toBase64 rnd, iterations = 120000,
                         hash = toBase64 (kdf pw rnd 120000)\<rparr>\<rparr>])"
  by (simp add: signupUser_def pbkdf2_def deriveKey_def Let_def setUsersDB_def saveProfile_def
        setUserSession_def)

lemma signupUser_never_weak:
  "signupUser lower kdf now rnd gid gid2 name em phone address pw c = (Inr r, c') \<Longrightarrow>
     reason r \<noteq> Some Weak"
  by (auto simp add: signupUser_def pbkdf2_def deriveKey_def Let_def split: if_splits)

text \<open>
  Claim C5, as stated, fails on the customer surface: \<open>signupUser\<close> has no password test.
  The eight-letter password \<open>abcdefgh\<close> contains no digit, yet signing up with it on an empty
  database returns \<open>ok\<close> and writes the credential record.
\<close>

theorem signup_weak_password_counterexample:
  "\<not> strong (js ''abcdefgh'')
   \<and> fst (signupUser ascii_lower kdf_stub 1000 [9] (js ''u1'') (js ''u2'') (js ''Ann'')
           (js ''ann@x.y'') (js ''123'') (js ''Road'') (js ''abcdefgh'') no_customer)
       = Inr \<lparr>ok = True, reason = None,
              user = Some \<lparr>u_id = js ''u1'', u_name = js ''Ann'', u_email = js ''ann@x.y'',
                             u_phone = js ''123'', u_address = js ''Road'',
                             pass = \<lparr>salt = toBase64 [9], iterations = 120000,
                                     hash = toBase64 (kdf_stub (js ''abcdefgh'') [9] 120000)\<rparr>\<rparr>\<rparr>
   \<and> usersDB (snd (signupUser ascii_lower kdf_stub 1000 [9] (js ''u1'') (js ''u2'') (js ''Ann'')
           (js ''ann@x.y'') (js ''123'') (js ''Road'') (js ''abcdefgh'') no_customer))
       = Some [\<lparr>u_id = js ''u1'', u_name = js ''Ann'', u_email = js ''ann@x.y'',
                 u_phone = js ''123'', u_address = js ''Road'',
                 pass = \<lparr>salt = toBase64 [9], iterations = 120000,
                         hash = toBase64 (kdf_stub (js ''abcdefgh'') [9] 120000)\<rparr>\<rparr>]"
proof -
  have w: "\<not> strong (js ''abcdefgh'')"
    by (simp add: strong_def js_def is_letter_def is_digit_def)
  have n: "\<not> list_ex (\<lambda>u. ascii_lower (u_email u) = ascii_lower (js ''ann@x.y''))
               (getUsersDB no_customer)"
    by (simp add: getUsersDB_def no_customer_def)
  show ?thesis
    using w signupUser_new [OF n] by (simp add: getUsersDB_def no_customer_def)
qed

text \<open>
  Claim C5, amended. \<open>setupAdmin\<close> rejects with \<open>weak\<close>, leaving storage unchanged, every
  password that has fewer than eight code units, or no ASCII letter, or no ASCII digit; a
  password meeting all three conditions is accepted, and the credential record is written
  together with a reset lockout record. \<open>signupUser\<close> applies no password policy: it never
  returns \<open>weak\<close>, and for a new identity it writes the record and returns \<open>ok\<close> whatever
  the password. The only password test on the customer surface is in the signup button
  handler, which, for a password shorter than eight code units, shows a message and returns
  without calling \<open>signupUser\<close> and without writing anything.
\<close>

theorem password_policy:
  "(strong pw \<longleftrightarrow>
      length pw \<ge> 8 \<and> (\<exists>c\<in>set pw. is_letter c) \<and> (\<exists>c\<in>set pw. is_digit c))
   \<and> (\<not> strong pw \<longrightarrow>
        setupAdmin kdf now rnd em pw s = (Inr \<lparr>ok = False, reason = Some Weak\<rparr>, s))
   \<and> (strong pw \<longrightarrow>
        setupAdmin kdf now rnd em pw s =
          (Inr \<lparr>ok = True, reason = None\<rparr>,
           s\<lparr>auth := Some \<lparr>salt = toBase64 rnd, iterations = 150000,
                            hash = toBase64 (kdf pw rnd 150000),
                            email = em, createdAt = now, version = 1\<rparr>,
             lockout := Some \<lparr>count = 0, lockUntil = 0\<rparr>\<rparr>))
   \<and> (name \<noteq> [] \<and> em' \<noteq> [] \<and> phone \<noteq> [] \<and> address \<noteq> [] \<and> pass1 \<noteq> [] \<and> pass2 \<noteq> []
        \<and> length pass1 < 8 \<longrightarrow>
        signupClick lower kdf now rnd gid gid2 name em' phone address pass1 pass2 c
          = (Inr PasswordTooShort, c))
   \<and> (\<forall>r c'. signupUser lower kdf now rnd gid gid2 name em' phone address pw c = (Inr r, c')
          \<longrightarrow> reason r \<noteq> Some Weak)
   \<and> (\<not> list_ex (\<lambda>u. lower (u_email u) = lower em') (getUsersDB c) \<longrightarrow>
        (\<exists>usr. fst (signupUser lower kdf now rnd gid gid2 name em' phone address pw c)
                 = Inr \<lparr>ok = True, reason = None, user = Some usr\<rparr>
             \<and> usersDB (snd (signupUser lower kdf now rnd gid gid2 name em' phone address pw c))
                 = Some (getUsersDB c @ [usr])))"
proof (intro conjI impI allI)
  show "strong pw \<longleftrightarrow>
      length pw \<ge> 8 \<and> (\<exists>c\<in>set pw. is_letter c) \<and> (\<exists>c\<in>set pw. is_digit c)"
    by (rule strong_iff)
next
  assume "\<not> strong pw"
  then show "setupAdmin kdf now rnd em pw s = (Inr \<lparr>ok = False, reason = Some Weak\<rparr>, s)"
    by (rule setupAdmin_weak)
next
  assume "strong pw"
  then show "setupAdmin kdf now rnd em pw s =
          (Inr \<lparr>ok = True, reason = None\<rparr>,
           s\<lparr>auth := Some \<lparr>salt = toBase64 rnd, iterations = 150000,
                            hash = toBase64 (kdf pw rnd 150000),
                            email = em, createdAt = now, version = 1\<rparr>,
             lockout := Some \<lparr>count = 0, lockUntil = 0\<rparr>\<rparr>)"
    by (rule setupAdmin_strong)
next
  assume "name \<noteq> [] \<and> em' \<noteq> [] \<and> phone \<noteq> [] \<and> address \<noteq> [] \<and> pass1 \<noteq> [] \<and> pass2 \<noteq> []
        \<and> length pass1 < 8"
  then show "signupClick lower kdf now rnd gid gid2 name em' phone address pass1 pass2 c
          = (Inr PasswordTooShort, c)"
    by (simp add: signupClick_def)
next
  fix r c'
  assume "signupUser lower kdf now rnd gid gid2 name em' phone address pw c = (Inr r, c')"
  then show "reason r \<noteq> Some Weak" by (rule signupUser_never_weak)
next
  assume "\<not> list_ex (\<lambda>u. lower (u_email u) = lower em') (getUsersDB c)"
  from signupUser_new [OF this]
  show "\<exists>usr. fst (signupUser lower kdf now rnd gid gid2 name em' phone address pw c)
                 = Inr \<lparr>ok = True, reason = None, user = Some usr\<rparr>
             \<and> usersDB (snd (signupUser lower kdf now rnd gid gid2 name em' phone address pw c))
                 = Some (getUsersDB c @ [usr])"
    by blast
qed

theorem password_policy_witness:
  "strong (js ''abcd1234'')
   \<and> fst (setupAdmin kdf_stub 1000 [9] (js ''a@b.c'') (js ''abcd1234'') empty_store)
        = Inr \<lparr>ok = True, reason = None\<rparr>
   \<and> \<not> strong (js ''abcdefgh'')
   \<and> setupAdmin kdf_stub 1000 [9] (js ''a@b.c'') (js ''abcdefgh'') empty_store
        = (Inr \<lparr>ok = False, reason = Some Weak\<rparr>, empty_store)
   \<and> signupClick ascii_lower kdf_stub 1000 [9] (js ''u1'') (js ''u2'') (js ''Ann'')
        (js ''ann@x.y'') (js ''123'') (js ''Road'') (js ''abc1'') (js ''abc1'') no_customer
        = (Inr PasswordTooShort, no_customer)
   \<and> (\<exists>usr. fst (signupUser ascii_lower kdf_stub 1000 [9] (js ''u1'') (js ''u2'') (js ''Ann'')
           (js ''ann@x.y'') (js ''123'') (js ''Road'') (js ''abcdefgh'') no_customer)
           = Inr \<lparr>ok = True, reason = None, user = Some usr\<rparr>)"
proof -
  have a: "strong (js ''abcd1234'')"
    by (simp add: strong_def js_def is_letter_def is_digit_def)
  have b: "\<not> strong (js ''abcdefgh'')"
    by (simp add: strong_def js_def is_letter_def is_digit_def)
  have n: "\<not> list_ex (\<lambda>u. ascii_lower (u_email u) = ascii_lower (js ''ann@x.y''))
               (getUsersDB no_customer)"
    by (simp add: getUsersDB_def no_customer_def)
  have f: "js ''Ann'' \<noteq> [] \<and> js ''ann@x.y'' \<noteq> [] \<and> js ''123'' \<noteq> [] \<and> js ''Road'' \<noteq> []
           \<and> js ''abc1'' \<noteq> [] \<and> js ''abc1'' \<noteq> [] \<and> length (js ''abc1'') < 8"
    by (simp add: js_def)
  note P1 = password_policy [where pw = "js ''abcd1234''" and kdf = kdf_stub and now = 1000
        and rnd = "[9]" and em = "js ''a@b.c''" and s = empty_store and name = "js ''Ann''"
        and em' = "js ''ann@x.y''" and phone = "js ''123''" and address = "js ''Road''"
        and ?pass1.0 = "js ''abc1''" and ?pass2.0 = "js ''abc1''" and lower = ascii_lower
        and gid = "js ''u1''" and ?gid2.0 = "js ''u2''" and c = no_customer]
  note P2 = password_policy [where pw = "js ''abcdefgh''" and kdf = kdf_stub and now = 1000
        and rnd = "[9]" and em = "js ''a@b.c''" and s = empty_store and name = "js ''Ann''"
        and em' = "js ''ann@x.y''" and phone = "js ''123''" and address = "js ''Road''"
        and ?pass1.0 = "js ''abc1''" and ?pass2.0 = "js ''abc1''" and lower = ascii_lower
        and gid = "js ''u1''" and ?gid2.0 = "js ''u2''" and c = no_customer]
  have 1: "fst (setupAdmin kdf_stub 1000 [9] (js ''a@b.c'') (js ''abcd1234'') empty_store)
        = Inr \<lparr>ok = True, reason = None\<rparr>"
    using P1 a by simp
  have 2: "setupAdmin kdf_stub 1000 [9] (js ''a@b.c'') (js ''abcdefgh'') empty_store
        = (Inr \<lparr>ok = False, reason = Some Weak\<rparr>, empty_store)"
    using P2 b by blast
  have 3: "signupClick ascii_lower kdf_stub 1000 [9] (js ''u1'') (js ''u2'') (js ''Ann'')
        (js ''ann@x.y'') (js ''123'') (js ''Road'') (js ''abc1'') (js ''abc1'') no_customer
        = (Inr PasswordTooShort, no_customer)"
    using P1 f by blast
  have 4: "\<exists>usr. fst (signupUser ascii_lower kdf_stub 1000 [9] (js ''u1'') (js ''u2'') (js ''Ann'')
           (js ''ann@x.y'') (js ''123'') (js ''Road'') (js ''abcdefgh'') no_customer)
           = Inr \<lparr>ok = True, reason = None, user = Some usr\<rparr>"
    using P2 n by blast
  show ?thesis using a b 1 2 3 4 by blast
qed

lemma auth_login: "auth (snd (login kdf now now2 rnd em pw s)) = auth s"
  by (simp add: login_def getAuth_def setSession_def resetLockout_def setLockout_def
        recordFailure_def Let_def split: option.splits sum.splits)

lemma auth_loginClick:
  "hasAuth s \<Longrightarrow> auth (snd (loginClick kdf t0 rnd0 now now2 rnd em pw s)) = auth s"
  using auth_login [of kdf now now2 rnd em pw s]
  by (auto simp add: loginClick_def split: prod.splits sum.splits)

text \<open>
  Claim C6, as stated, fails for \<open>setupAdmin\<close>: the function has no test for an existing
  record. Called with a strong password on a storage that already holds a credential
  record, it returns \<open>ok\<close> and replaces the record.
\<close>

theorem setupAdmin_overwrites_counterexample:
  "setupAdmin kdf_stub 9000 [9] (js ''x@y.z'') (js ''newpass99'')
       \<lparr>auth = Some demo_auth, lockout = None, session = None\<rparr>
     = (Inr \<lparr>ok = True, reason = None\<rparr>,
        \<lparr>auth = Some \<lparr>salt = toBase64 [9], iterations = 150000,
                       hash = toBase64 (kdf_stub (js ''newpass99'') [9] 150000),
                       email = js ''x@y.z'', createdAt = 9000, version = 1\<rparr>,
         lockout = Some \<lparr>count = 0, lockUntil = 0\<rparr>, session = None\<rparr>)
   \<and> auth (snd (setupAdmin kdf_stub 9000 [9] (js ''x@y.z'') (js ''newpass99'')
       \<lparr>auth = Some demo_auth, lockout = None, session = None\<rparr>)) \<noteq> Some demo_auth"
proof -
  have a: "strong (js ''newpass99'')"
    by (simp add: strong_def js_def is_letter_def is_digit_def)
  have "email \<lparr>salt = toBase64 [9], iterations = 150000,
                       hash = toBase64 (kdf_stub (js ''newpass99'') [9] 150000),
                       email = js ''x@y.z'', createdAt = 9000, version = 1\<rparr> \<noteq> email demo_auth"
    by (simp add: demo_auth_def js_def)
  then have "\<lparr>salt = toBase64 [9], iterations = 150000,
                       hash = toBase64 (kdf_stub (js ''newpass99'') [9] 150000),
                       email = js ''x@y.z'', createdAt = 9000, version = 1\<rparr> \<noteq> demo_auth"
    by metis
  then show ?thesis
    by (simp add: setupAdmin_strong [OF a])
qed

text \<open>
  Claim C6, amended. On the customer surface, \<open>signupUser\<close> for an email whose lower-cased
  form equals that of a stored user returns \<open>exists\<close> and leaves the whole storage unchanged.
  On the administrator surface, \<open>setupAdmin\<close> itself has no existence test and, given a
  strong password, writes the new record whatever was stored; setup is one-shot because its
  only caller, the login button handler, calls \<open>setupAdmin\<close> only while \<open>hasAuth()\<close> is false
  and otherwise calls \<open>login\<close>, which never writes the credential record: a click on a
  storage that holds a credential record leaves that record unchanged.
\<close>

theorem setup_one_shot_by_caller:
  "(list_ex (\<lambda>u. lower (u_email u) = lower em') (getUsersDB c) \<longrightarrow>
      signupUser lower kdf now rnd gid gid2 name em' phone address pw' c
        = (Inr \<lparr>ok = False, reason = Some Exists, user = None\<rparr>, c))
   \<and> (hasAuth s \<longrightarrow> auth (snd (loginClick kdf t0 rnd0 now now2 rnd em pw s)) = auth s)
   \<and> auth (snd (login kdf now now2 rnd em pw s)) = auth s
   \<and> (strong pw \<longrightarrow>
        auth (snd (setupAdmin kdf t0 rnd0 em pw s))
          = Some \<lparr>salt = toBase64 rnd0, iterations = 150000,
                   hash = toBase64 (kdf pw rnd0 150000),
                   email = em, createdAt = t0, version = 1\<rparr>)"
  by (simp add: signupUser_exists auth_loginClick auth_login setupAdmin_strong)

theorem setup_one_shot_by_caller_witness:
  "signupUser ascii_lower kdf_stub 1000 [5] (js ''u1'') (js ''u2'') (js ''Bob'') (js ''ann@x.y'')
       (js ''456'') (js ''Lane'') (js ''hunter22'')
       \<lparr>usersDB = Some [demo_user], userSession = None, profile = None, users = None\<rparr>
     = (Inr \<lparr>ok = False, reason = Some Exists, user = None\<rparr>,
        \<lparr>usersDB = Some [demo_user], userSession = None, profile = None, users = None\<rparr>)
   \<and> auth (snd (loginClick kdf_stub 9000 [9] 9100 9200 [7] (js ''x@y.z'') (js ''newpass99'')
         \<lparr>auth = Some demo_auth, lockout = None, session = None\<rparr>)) = Some demo_auth
   \<and> strong (js ''newpass99'')
   \<and> auth (snd (setupAdmin kdf_stub 9000 [9] (js ''x@y.z'') (js ''newpass99'') empty_store))
       = Some \<lparr>salt = toBase64 [9], iterations = 150000,
                hash = toBase64 (kdf_stub (js ''newpass99'') [9] 150000),
                email = js ''x@y.z'', createdAt = 9000, version = 1\<rparr>"
proof -
  have e: "list_ex (\<lambda>u. ascii_lower (u_email u) = ascii_lower (js ''ann@x.y''))
             (getUsersDB \<lparr>usersDB = Some [demo_user], userSession = None, profile = None,
                          users = None\<rparr>)"
    by (simp add: getUsersDB_def demo_user_def ascii_lower_def js_def)
  have h: "hasAuth \<lparr>auth = Some demo_auth, lockout = None, session = None\<rparr>"
    by (simp add: hasAuth_def getAuth_def)
  have a: "strong (js ''newpass99'')"
    by (simp add: strong_def js_def is_letter_def is_digit_def)
  note T1 = setup_one_shot_by_caller [where lower = ascii_lower and em' = "js ''ann@x.y''"
      and c = "\<lparr>usersDB = Some [demo_user], userSession = None, profile = None, users = None\<rparr>"
      and kdf = kdf_stub and now = 1000 and rnd = "[5]" and gid = "js ''u1''"
      and ?gid2.0 = "js ''u2''" and name = "js ''Bob''" and phone = "js ''456''"
      and address = "js ''Lane''" and pw' = "js ''hunter22''"]
  note T2 = setup_one_shot_by_caller [where kdf = kdf_stub and ?t0.0 = 9000 and ?rnd0.0 = "[9]"
      and now = 9100 and ?now2.0 = 9200 and rnd = "[7]" and em = "js ''x@y.z''"
      and pw = "js ''newpass99''"
      and s = "\<lparr>auth = Some demo_auth, lockout = None, session = None\<rparr>"]
  note T3 = setup_one_shot_by_caller [where kdf = kdf_stub and ?t0.0 = 9000 and ?rnd0.0 = "[9]"
      and em = "js ''x@y.z''" and pw = "js ''newpass99''" and s = empty_store]
  have 1: "signupUser ascii_lower kdf_stub 1000 [5] (js ''u1'') (js ''u2'') (js ''Bob'') (js ''ann@x.y'')
       (js ''456'') (js ''Lane'') (js ''hunter22'')
       \<lparr>usersDB = Some [demo_user], userSession = None, profile = None, users = None\<rparr>
     = (Inr \<lparr>ok = False, reason = Some Exists, user = None\<rparr>,
        \<lparr>usersDB = Some [demo_user], userSession = None, profile = None, users = None\<rparr>)"
    using T1 e by blast
  have 2: "auth (snd (loginClick kdf_stub 9000 [9] 9100 9200 [7] (js ''x@y.z'') (js ''newpass99'')
         \<lparr>auth = Some demo_auth, lockout = None, session = None\<rparr>)) = Some demo_auth"
    using T2 h by simp
  have 3: "auth (snd (setupAdmin kdf_stub 9000 [9] (js ''x@y.z'') (js ''newpass99'') empty_store))
       = Some \<lparr>salt = toBase64 [9], iterations = 150000,
                hash = toBase64 (kdf_stub (js ''newpass99'') [9] 150000),
                email = js ''x@y.z'', createdAt = 9000, version = 1\<rparr>"
    using T3 a by blast
  show ?thesis using 1 2 3 a by blast
qed

section \<open>The lockout state along the events of the administrator surface\<close>

lemma lockout_isLoggedIn: "lockout (snd (isLoggedIn now s)) = lockout s"
  by (simp add: isLoggedIn_def getSession_def clearSession_def split: option.splits)

lemma lockout_refreshSession: "lockout (refreshSession now s) = lockout s"
  by (simp add: refreshSession_def getSession_def setSession_def Let_def split: option.splits)

lemma lockout_logout: "lockout (logout s) = lockout s"
  by (simp add: logout_def clearSession_def)

lemma auth_isLoggedIn: "auth (snd (isLoggedIn now s)) = auth s"
  by (simp add: isLoggedIn_def getSession_def clearSession_def split: option.splits)

lemma auth_refreshSession: "auth (refreshSession now s) = auth s"
  by (simp add: refreshSession_def getSession_def setSession_def Let_def split: option.splits)

lemma auth_logout: "auth (logout s) = auth s"
  by (simp add: logout_def clearSession_def)

lemma recordFailure_lockUntil_mono:
  "lockUntil (getLockout s) \<le> now \<Longrightarrow>
     lockUntil (getLockout s) \<le> lockUntil (getLockout (recordFailure now s))"
  by (simp add: getLockout_recordFailure min_def)

text \<open>What \<open>login\<close> does to \<open>lockUntil\<close>, from any storage.\<close>

lemma login_lockUntil:
  assumes "now \<le> now2"
  shows "lockUntil (getLockout s) \<le> lockUntil (getLockout (snd (login kdf now now2 rnd em pw s)))
         \<or> (lockUntil (getLockout (snd (login kdf now now2 rnd em pw s))) = 0
            \<and> (\<exists>r. fst (login kdf now now2 rnd em pw s) = Inr r \<and> ok r))"
proof (cases "isLockedOut now s")
  case True
  then show ?thesis by (simp add: login_def)
next
  case False
  then have le: "lockUntil (getLockout s) \<le> now2"
    using assms by (simp add: isLockedOut_def)
  show ?thesis
  proof (cases "getAuth s")
    case None
    with False show ?thesis by (simp add: login_def)
  next
    case (Some a)
    show ?thesis
    proof (cases "verifyPassword kdf pw a")
      case (Inl e)
      with False Some show ?thesis by (simp add: login_def)
    next
      case (Inr v)
      show ?thesis
      proof (cases "v \<and> em = email a")
        case True
        with False Some Inr show ?thesis
          by (simp add: login_def setSession_def resetLockout_def setLockout_def getLockout_def)
      next
        case False
        with \<open>\<not> isLockedOut now s\<close> Some Inr
        have "snd (login kdf now now2 rnd em pw s) = recordFailure now2 s"
          by (auto simp add: login_def)
        then show ?thesis
          using recordFailure_lockUntil_mono [OF le] by simp
      qed
    qed
  qed
qed

lemma login_no_auth:
  "auth s = None \<Longrightarrow> lockout (snd (login kdf now now2 rnd em pw s)) = lockout s"
  by (simp add: login_def getAuth_def)


lemma loginClick_with_auth:
  assumes "em \<noteq> []" "pw \<noteq> []" "hasAuth s"
  shows "snd (loginClick kdf t0 rnd0 now now2 rnd em pw s) = snd (login kdf now now2 rnd em pw s)"
    and "login_succeeded kdf (LoginClick t0 rnd0 now now2 rnd em pw) s
           = (\<exists>r. fst (login kdf now now2 rnd em pw s) = Inr r \<and> ok r)"
  using assms by (auto simp add: loginClick_def split: prod.splits sum.splits)

lemma loginClick_first_run:
  assumes "em \<noteq> []" "pw \<noteq> []" "\<not> hasAuth s" "strong pw"
  shows "snd (loginClick kdf t0 rnd0 now now2 rnd em pw s)
           = snd (login kdf now now2 rnd em pw (snd (setupAdmin kdf t0 rnd0 em pw s)))"
    and "login_succeeded kdf (LoginClick t0 rnd0 now now2 rnd em pw) s
           = (\<exists>r. fst (login kdf now now2 rnd em pw (snd (setupAdmin kdf t0 rnd0 em pw s))) = Inr r
                  \<and> ok r)"
  using assms by (auto simp add: loginClick_def setupAdmin_strong split: prod.splits sum.splits)

lemma loginClick_rejected:
  assumes "em = [] \<or> pw = [] \<or> (\<not> hasAuth s \<and> \<not> strong pw)"
  shows "snd (loginClick kdf t0 rnd0 now now2 rnd em pw s) = s"
  using assms by (auto simp add: loginClick_def setupAdmin_weak)

lemma loginClick_keeps_invariant:
  assumes "auth s = None \<longrightarrow> lockout s = None"
  shows "auth (snd (loginClick kdf t0 rnd0 now now2 rnd em pw s)) = None \<longrightarrow>
         lockout (snd (loginClick kdf t0 rnd0 now now2 rnd em pw s)) = None"
proof -
  consider (rejected) "em = [] \<or> pw = [] \<or> (\<not> hasAuth s \<and> \<not> strong pw)"
    | (login) "em \<noteq> []" "pw \<noteq> []" "hasAuth s"
    | (first_run) "em \<noteq> []" "pw \<noteq> []" "\<not> hasAuth s" "strong pw"
    by blast
  then show ?thesis
  proof cases
    case rejected
    with assms show ?thesis by (simp add: loginClick_rejected)
  next
    case login
    then show ?thesis
      by (auto simp add: loginClick_with_auth(1) auth_login hasAuth_def getAuth_def)
  next
    case first_run
    then show ?thesis
      by (simp add: loginClick_first_run(1) auth_login setupAdmin_strong)
  qed
qed

lemma reachable_invariant: "reachable kdf s \<Longrightarrow> auth s = None \<longrightarrow> lockout s = None"
proof (induction rule: reachable.induct)
  case start
  show ?case by (simp add: empty_store_def)
next
  case (step s ev)
  then show ?case
    by (cases ev)
       (simp_all add: loginClick_keeps_invariant lockout_isLoggedIn auth_isLoggedIn
          lockout_refreshSession auth_refreshSession lockout_logout auth_logout)
qed

lemma loginClick_lockUntil:
  assumes inv: "auth s = None \<longrightarrow> lockout s = None" and clk: "now \<le> now2"
  shows "lockUntil (getLockout s)
           \<le> lockUntil (getLockout (snd (loginClick kdf t0 rnd0 now now2 rnd em pw s)))
         \<or> (lockUntil (getLockout (snd (loginClick kdf t0 rnd0 now now2 rnd em pw s))) = 0
            \<and> login_succeeded kdf (LoginClick t0 rnd0 now now2 rnd em pw) s)"
proof -
  consider (rejected) "em = [] \<or> pw = [] \<or> (\<not> hasAuth s \<and> \<not> strong pw)"
    | (login) "em \<noteq> []" "pw \<noteq> []" "hasAuth s"
    | (first_run) "em \<noteq> []" "pw \<noteq> []" "\<not> hasAuth s" "strong pw"
    by blast
  then show ?thesis
  proof cases
    case rejected
    then show ?thesis by (simp add: loginClick_rejected)
  next
    case login
    show ?thesis
      unfolding loginClick_with_auth [OF login] by (rule login_lockUntil [OF clk])
  next
    case first_run
    define s1 where "s1 = snd (setupAdmin kdf t0 rnd0 em pw s)"
    have l1: "lockUntil (getLockout s1) = 0"
      unfolding s1_def by (simp add: setupAdmin_strong [OF first_run(4)] getLockout_def)
    have z: "lockUntil (getLockout s) = 0"
      using inv first_run(3) by (simp add: hasAuth_def getAuth_def getLockout_def)
    show ?thesis
      unfolding loginClick_first_run [OF first_run] s1_def [symmetric]
      using login_lockUntil [OF clk, of s1 kdf rnd em pw] l1 z by simp
  qed
qed

lemma fire_first_click: "fire kdf_stub first_click empty_store = demo_store 0 0"
proof -
  have a: "strong (js ''abcd1234'')"
    by (simp add: strong_def js_def is_letter_def is_digit_def)
  have s: "snd (setupAdmin kdf_stub 0 [1, 2, 3] (js ''a@b.c'') (js ''abcd1234'') empty_store)
             = \<lparr>auth = Some demo_auth, lockout = Some \<lparr>count = 0, lockUntil = 0\<rparr>,
                session = None\<rparr>"
    by (simp add: setupAdmin_strong [OF a] empty_store_def demo_auth_def)
  have e: "email demo_auth = js ''a@b.c''"
    by (simp add: demo_auth_def)
  have n: "js ''a@b.c'' \<noteq> []" "js ''abcd1234'' \<noteq> []"
    by (simp_all add: js_def)
  have h: "\<not> hasAuth empty_store"
    by (simp add: hasAuth_def getAuth_def empty_store_def)
  have "fire kdf_stub first_click empty_store
          = snd (login kdf_stub 100 200 [7] (js ''a@b.c'') (js ''abcd1234'')
              (snd (setupAdmin kdf_stub 0 [1, 2, 3] (js ''a@b.c'') (js ''abcd1234'')
                 empty_store)))"
    by (simp add: first_click_def loginClick_first_run(1) [OF n h a])
  also have "\<dots> = demo_store 0 0"
    by (simp add: s login_def isLockedOut_def getLockout_def getAuth_def verifyPassword_demo e
          resetLockout_def setLockout_def setSession_def demo_store_def)
  finally show ?thesis .
qed

lemma fire_wrong_click:
  "fire kdf_stub (wrong_click now now2) (demo_store c l) =
     (if l > now then demo_store c l
      else demo_store (c + 1)
             (if c + 1 \<ge> 5 then now2 + min (c + 1 - 4) 6 * 60 * 1000 else l))"
proof -
  have e: "email demo_auth = js ''a@b.c''"
    by (simp add: demo_auth_def)
  have n: "js ''a@b.c'' \<noteq> []" "js ''wrong1234'' \<noteq> []"
    by (simp_all add: js_def)
  show ?thesis
    using n by (simp add: wrong_click_def loginClick_def hasAuth_def getAuth_def login_def
          isLockedOut_def getLockout_def verifyPassword_demo_wrong e recordFailure_def
          setLockout_def demo_store_def)
qed

lemma login_succeeded_wrong_click:
  "\<not> login_succeeded kdf_stub (wrong_click now now2) (demo_store c l)"
proof -
  have e: "email demo_auth = js ''a@b.c''"
    by (simp add: demo_auth_def)
  have n: "js ''a@b.c'' \<noteq> []" "js ''wrong1234'' \<noteq> []"
    by (simp_all add: js_def)
  show ?thesis
    using n by (simp add: wrong_click_def loginClick_def hasAuth_def getAuth_def login_def
          isLockedOut_def getLockout_def verifyPassword_demo_wrong e demo_store_def)
qed

text \<open>
  Five wrong passwords after the first-run setup, the fifth read at clock 1000000, lock
  the administrator until 1060000.
\<close>

lemma reachable_locked: "reachable kdf_stub (demo_store 5 1060000)"
proof -
  have "reachable kdf_stub (fire kdf_stub first_click empty_store)"
    by (rule reachable.step [OF reachable.start])
  then have 0: "reachable kdf_stub (demo_store 0 0)"
    by (simp add: fire_first_click)
  have "reachable kdf_stub (fire kdf_stub (wrong_click 300 400) (demo_store 0 0))"
    by (rule reachable.step [OF 0])
  then have 1: "reachable kdf_stub (demo_store 1 0)"
    by (simp add: fire_wrong_click)
  have "reachable kdf_stub (fire kdf_stub (wrong_click 500 600) (demo_store 1 0))"
    by (rule reachable.step [OF 1])
  then have 2: "reachable kdf_stub (demo_store 2 0)"
    by (simp add: fire_wrong_click)
  have "reachable kdf_stub (fire kdf_stub (wrong_click 700 800) (demo_store 2 0))"
    by (rule reachable.step [OF 2])
  then have 3: "reachable kdf_stub (demo_store 3 0)"
    by (simp add: fire_wrong_click)
  have "reachable kdf_stub (fire kdf_stub (wrong_click 900 1000) (demo_store 3 0))"
    by (rule reachable.step [OF 3])
  then have 4: "reachable kdf_stub (demo_store 4 0)"
    by (simp add: fire_wrong_click)
  have "reachable kdf_stub (fire kdf_stub (wrong_click 999000 1000000) (demo_store 4 0))"
    by (rule reachable.step [OF 4])
  then show ?thesis
    by (simp add: fire_wrong_click)
qed

text \<open>
  Claim C9, as stated, fails: \<open>login\<close> reads the wall clock once for the lockout check and
  again, after the awaited verification, inside \<open>recordFailure\<close>, and nothing orders the two
  readings. In the reachable storage locked until 1060000, a wrong password entered at
  1060000 (the window has just expired) whose second clock reading is 700000 (the clock
  was set back during the verification) is a failed login, not a successful one, and it
  lowers \<open>lockUntil\<close> from 1060000 to 820000.
\<close>

theorem lockUntil_decreases_counterexample:
  "reachable kdf_stub (demo_store 5 1060000)
   \<and> lockUntil (getLockout (demo_store 5 1060000)) = 1060000
   \<and> fire kdf_stub (wrong_click 1060000 700000) (demo_store 5 1060000) = demo_store 6 820000
   \<and> lockUntil (getLockout (fire kdf_stub (wrong_click 1060000 700000) (demo_store 5 1060000)))
       = 820000
   \<and> \<not> login_succeeded kdf_stub (wrong_click 1060000 700000) (demo_store 5 1060000)
   \<and> \<not> clock_ok (wrong_click 1060000 700000)"
  using reachable_locked login_succeeded_wrong_click [of 1060000 700000 5 1060000]
  by (simp add: fire_wrong_click) (simp add: demo_store_def getLockout_def wrong_click_def)

text \<open>
  Claim C9, amended. Provided the clock read after the awaited verification is not earlier
  than the clock read by the lockout check, every call of \<open>login\<close>, from any storage, leaves
  \<open>lockUntil\<close> unchanged or larger, or else sets it to 0 while returning \<open>ok\<close>; and every
  event of the administrator surface (click on the login button, page load, activity
  refresh, logout) that satisfies this clock condition and is fired in a storage
  reachable from the empty one leaves \<open>lockUntil\<close> unchanged or larger, or else resets it to
  0 by a successful login.
\<close>

theorem lockUntil_monotone:
  "(now \<le> now2 \<longrightarrow>
      lockUntil (getLockout s) \<le> lockUntil (getLockout (snd (login kdf now now2 rnd em pw s)))
      \<or> (lockUntil (getLockout (snd (login kdf now now2 rnd em pw s))) = 0
         \<and> (\<exists>r. fst (login kdf now now2 rnd em pw s) = Inr r \<and> ok r)))
   \<and> (reachable kdf s' \<and> clock_ok ev \<longrightarrow>
      lockUntil (getLockout s') \<le> lockUntil (getLockout (fire kdf ev s'))
      \<or> (lockUntil (getLockout (fire kdf ev s')) = 0 \<and> login_succeeded kdf ev s'))"
proof (intro conjI impI)
  assume "now \<le> now2"
  then show "lockUntil (getLockout s) \<le> lockUntil (getLockout (snd (login kdf now now2 rnd em pw s)))
      \<or> (lockUntil (getLockout (snd (login kdf now now2 rnd em pw s))) = 0
         \<and> (\<exists>r. fst (login kdf now now2 rnd em pw s) = Inr r \<and> ok r))"
    by (rule login_lockUntil)
next
  assume a: "reachable kdf s' \<and> clock_ok ev"
  then have inv: "auth s' = None \<longrightarrow> lockout s' = None"
    using reachable_invariant by blast
  show "lockUntil (getLockout s') \<le> lockUntil (getLockout (fire kdf ev s'))
      \<or> (lockUntil (getLockout (fire kdf ev s')) = 0 \<and> login_succeeded kdf ev s')"
  proof (cases ev)
    case (LoginClick t0 rnd0 n n2 r e p)
    with a have "n \<le> n2" by simp
    from loginClick_lockUntil [OF inv this, of kdf t0 rnd0 r e p] LoginClick
    show ?thesis by simp
  next
    case (Init n)
    then show ?thesis by (simp add: getLockout_def lockout_isLoggedIn)
  next
    case (Activity n)
    then show ?thesis by (simp add: getLockout_def lockout_refreshSession)
  next
    case LogoutClick
    then show ?thesis by (simp add: getLockout_def lockout_logout)
  qed
qed

theorem lockUntil_monotone_witness:
  "(5000::int) \<le> 5200
   \<and> lockUntil (getLockout \<lparr>auth = Some demo_auth,
         lockout = Some \<lparr>count = 5, lockUntil = 4000\<rparr>, session = None\<rparr>) = 4000
   \<and> lockUntil (getLockout (snd (login kdf_stub 5000 5200 [7] (js ''a@b.c'') (js ''wrong1234'')
         \<lparr>auth = Some demo_auth, lockout = Some \<lparr>count = 5, lockUntil = 4000\<rparr>,
          session = None\<rparr>))) = 125200
   \<and> reachable kdf_stub (demo_store 5 1060000)
   \<and> clock_ok (wrong_click 1060000 1060500)
   \<and> lockUntil (getLockout (demo_store 5 1060000)) = 1060000
   \<and> lockUntil (getLockout (fire kdf_stub (wrong_click 1060000 1060500) (demo_store 5 1060000)))
       = 1180500
   \<and> reachable kdf_stub (demo_store 0 0)
   \<and> clock_ok first_click"
proof -
  have r: "reachable kdf_stub (demo_store 5 1060000)" by (rule reachable_locked)
  have c: "clock_ok (wrong_click 1060000 1060500)" by (simp add: wrong_click_def)
  have r0: "reachable kdf_stub (demo_store 0 0)"
    using reachable.step [OF reachable.start, of kdf_stub first_click]
    by (simp add: fire_first_click)
  have c0: "clock_ok first_click" by (simp add: first_click_def)
  have l: "snd (login kdf_stub 5000 5200 [7] (js ''a@b.c'') (js ''wrong1234'')
         \<lparr>auth = Some demo_auth, lockout = Some \<lparr>count = 5, lockUntil = 4000\<rparr>,
          session = None\<rparr>)
       = \<lparr>auth = Some demo_auth, lockout = Some \<lparr>count = 6, lockUntil = 125200\<rparr>,
          session = None\<rparr>"
    by (simp add: login_def isLockedOut_def getLockout_def getAuth_def verifyPassword_demo_wrong
          recordFailure_def setLockout_def)
  have f: "fire kdf_stub (wrong_click 1060000 1060500) (demo_store 5 1060000)
             = demo_store 6 1180500"
    by (simp add: fire_wrong_click)
  note T = lockUntil_monotone [where now = 5000 and ?now2.0 = 5200 and kdf = kdf_stub
      and rnd = "[7]" and em = "js ''a@b.c''" and pw = "js ''wrong1234''"
      and s = "\<lparr>auth = Some demo_auth, lockout = Some \<lparr>count = 5, lockUntil = 4000\<rparr>,
               session = None\<rparr>"
      and s' = "demo_store 5 1060000" and ev = "wrong_click 1060000 1060500"]
  have "lockUntil (getLockout (demo_store 5 1060000))
          \<le> lockUntil (getLockout (fire kdf_stub (wrong_click 1060000 1060500)
                                      (demo_store 5 1060000)))
        \<or> lockUntil (getLockout (fire kdf_stub (wrong_click 1060000 1060500)
                                      (demo_store 5 1060000))) = 0
          \<and> login_succeeded kdf_stub (wrong_click 1060000 1060500) (demo_store 5 1060000)"
    using T r c by blast
  then show ?thesis
    using r c r0 c0 by (simp add: l f) (simp add: getLockout_def demo_store_def)
qed

section \<open>Hashing and verification\<close>

lemma hashPassword_value:
  "its > 0 \<Longrightarrow> its < 4294967296 \<Longrightarrow>
     hashPassword kdf rnd P sb its =
       Inr \<lparr>salt = toBase64 (case sb of Some b \<Rightarrow> b | None \<Rightarrow> rnd), iterations = its,
            hash = toBase64 (kdf P (case sb of Some b \<Rightarrow> b | None \<Rightarrow> rnd) its)\<rparr>"
  by (simp add: hashPassword_def deriveKey_def Let_def)

lemma hashPassword_Inr:
  "hashPassword kdf rnd P sb its = Inr h \<Longrightarrow>
     its > 0 \<and> its < 4294967296
     \<and> h = \<lparr>salt = toBase64 (case sb of Some b \<Rightarrow> b | None \<Rightarrow> rnd), iterations = its,
            hash = toBase64 (kdf P (case sb of Some b \<Rightarrow> b | None \<Rightarrow> rnd) its)\<rparr>"
  by (auto simp add: hashPassword_def deriveKey_def Let_def split: if_splits)

lemma verifyPassword_value:
  "iterations a > 0 \<Longrightarrow> iterations a < 4294967296 \<Longrightarrow> salt a = toBase64 slt \<Longrightarrow>
     verifyPassword kdf P a = Inr (toBase64 (kdf P slt (iterations a)) = hash a)"
  by (simp add: verifyPassword_def fromBase64_toBase64 deriveKey_def)

lemma find_append_last:
  "\<not> list_ex Q xs \<Longrightarrow> Q x \<Longrightarrow> find Q (xs @ [x]) = Some x"
  by (induction xs) simp_all

lemma signupUser_ok:
  assumes "signupUser lower kdf now rnd gid gid2 name em phone address P c = (Inr r, c')"
      and "ok r"
  shows "\<not> list_ex (\<lambda>u. lower (u_email u) = lower em) (getUsersDB c)"
    and "r = \<lparr>ok = True, reason = None,
              user = Some \<lparr>u_id = gid, u_name = name, u_email = em, u_phone = phone,
                             u_address = address,
                             pass = \<lparr>salt = toBase64 rnd, iterations = 120000,
                                     hash = toBase64 (kdf P rnd 120000)\<rparr>\<rparr>\<rparr>"
    and "getUsersDB c' = getUsersDB c @
               [\<lparr>u_id = gid, u_name = name, u_email = em, u_phone = phone,
                 u_address = address,
                 pass = \<lparr>salt = toBase64 rnd, iterations = 120000,
                         hash = toBase64 (kdf P rnd 120000)\<rparr>\<rparr>]"
proof -
  show n: "\<not> list_ex (\<lambda>u. lower (u_email u) = lower em) (getUsersDB c)"
    using assms by (auto simp add: signupUser_def)
  from signupUser_new [OF n, of kdf now rnd gid gid2 name phone address P] assms(1)
  show "r = \<lparr>ok = True, reason = None,
              user = Some \<lparr>u_id = gid, u_name = name, u_email = em, u_phone = phone,
                             u_address = address,
                             pass = \<lparr>salt = toBase64 rnd, iterations = 120000,
                                     hash = toBase64 (kdf P rnd 120000)\<rparr>\<rparr>\<rparr>"
    and "getUsersDB c' = getUsersDB c @
               [\<lparr>u_id = gid, u_name = name, u_email = em, u_phone = phone,
                 u_address = address,
                 pass = \<lparr>salt = toBase64 rnd, iterations = 120000,
                         hash = toBase64 (kdf P rnd 120000)\<rparr>\<rparr>]"
    by (simp_all add: getUsersDB_def)
qed

lemma loginUser_after_signup:
  assumes "signupUser lower kdf now rnd gid gid2 name em phone address P c = (Inr r, c')"
      and "ok r"
  shows "fst (loginUser lower kdf now' gid' em P' c')
           = (if toBase64 (kdf P' rnd 120000) = toBase64 (kdf P rnd 120000)
              then Inr r else Inr \<lparr>ok = False, reason = None, user = None\<rparr>)"
proof -
  note s = signupUser_ok [OF assms]
  let ?usr = "\<lparr>u_id = gid, u_name = name, u_email = em, u_phone = phone,
                 u_address = address,
                 pass = \<lparr>salt = toBase64 rnd, iterations = 120000,
                         hash = toBase64 (kdf P rnd 120000)\<rparr>\<rparr>"
  have f: "find (\<lambda>u. lower (u_email u) = lower em) (getUsersDB c') = Some ?usr"
    unfolding s(3) by (rule find_append_last [OF s(1)]) simp
  show ?thesis
    by (simp add: loginUser_def f fromBase64_toBase64 pbkdf2_def deriveKey_def Let_def s(2))
qed

text \<open>
  Claim C8. That PBKDF2 is a function of (password, salt, iterations) is the platform's
  property and enters the model as the type of \<open>kdf\<close>; what the code adds is that nothing
  else enters the derivation: the record produced by \<open>hashPassword\<close> for a given password,
  salt and iteration count does not depend on the random source, and \<open>pbkdf2\<close> returns the
  base64 form of the same derived key. A record is produced exactly for the iteration
  counts the platform accepts, 1 to \<open>2^32 - 1\<close> (the code uses 150000 and 120000); for the
  others the derivation rejects and there is no record to verify against. Whenever a
  record is produced, verifying the password \<open>P\<close> against the record produced by hashing
  \<open>P\<close> yields true, and verifying a password whose derived key (same salt, same iteration
  count) differs yields false. On the customer surface likewise: after a successful
  \<open>signupUser\<close> with password \<open>P\<close>, \<open>loginUser\<close> with the same email and \<open>P\<close> returns \<open>ok\<close> with
  that user, and with a password whose derived key differs it returns \<open>{ ok:false }\<close>.
\<close>

theorem hash_verify_roundtrip:
  "hashPassword kdf rnd P (Some S) its = hashPassword kdf rnd' P (Some S) its
   \<and> pbkdf2 kdf P S its =
       (if its \<ge> 4294967296 then Inl TypeError
        else if its = 0 then Inl OperationError
        else Inr (toBase64 (kdf P S its)))
   \<and> ((\<exists>h. hashPassword kdf rnd P sb its = Inr h) \<longleftrightarrow> 0 < its \<and> its < 4294967296)
   \<and> (hashPassword kdf rnd P sb its = Inr h \<longrightarrow> verifyPassword kdf P h = Inr True)
   \<and> (hashPassword kdf rnd P (Some S) its = Inr h \<and> kdf P' S its \<noteq> kdf P S its \<longrightarrow>
        verifyPassword kdf P' h = Inr False)
   \<and> (signupUser lower kdf now rnd gid gid2 name em phone address P c = (Inr r, c') \<and> ok r \<longrightarrow>
        fst (loginUser lower kdf now' gid' em P c') = Inr r)
   \<and> (signupUser lower kdf now rnd gid gid2 name em phone address P c = (Inr r, c') \<and> ok r
        \<and> kdf P' rnd 120000 \<noteq> kdf P rnd 120000 \<longrightarrow>
        fst (loginUser lower kdf now' gid' em P' c')
          = Inr \<lparr>ok = False, reason = None, user = None\<rparr>)"
proof (intro conjI impI)
  show "hashPassword kdf rnd P (Some S) its = hashPassword kdf rnd' P (Some S) its"
    by (simp add: hashPassword_def)
next
  show "pbkdf2 kdf P S its =
       (if its \<ge> 4294967296 then Inl TypeError
        else if its = 0 then Inl OperationError
        else Inr (toBase64 (kdf P S its)))"
    by (simp add: pbkdf2_def deriveKey_def)
next
  show "(\<exists>h. hashPassword kdf rnd P sb its = Inr h) \<longleftrightarrow> 0 < its \<and> its < 4294967296"
    using hashPassword_Inr [of kdf rnd P sb its] hashPassword_value [of its kdf rnd P sb]
    by blast
next
  assume "hashPassword kdf rnd P sb its = Inr h"
  from hashPassword_Inr [OF this] show "verifyPassword kdf P h = Inr True"
    by (simp add: verifyPassword_value)
next
  assume "hashPassword kdf rnd P (Some S) its = Inr h \<and> kdf P' S its \<noteq> kdf P S its"
  then have "its > 0" "its < 4294967296"
    "h = \<lparr>salt = toBase64 S, iterations = its, hash = toBase64 (kdf P S its)\<rparr>"
    and d: "kdf P' S its \<noteq> kdf P S its"
    using hashPassword_Inr [of kdf rnd P "Some S" its h] by simp_all
  then show "verifyPassword kdf P' h = Inr False"
    by (simp add: verifyPassword_value toBase64_inj)
next
  assume "signupUser lower kdf now rnd gid gid2 name em phone address P c = (Inr r, c') \<and> ok r"
  then show "fst (loginUser lower kdf now' gid' em P c') = Inr r"
    using loginUser_after_signup [of lower kdf now rnd gid gid2 name em phone address P c r c' now' gid' P]
    by simp
next
  assume "signupUser lower kdf now rnd gid gid2 name em phone address P c = (Inr r, c') \<and> ok r
        \<and> kdf P' rnd 120000 \<noteq> kdf P rnd 120000"
  then show "fst (loginUser lower kdf now' gid' em P' c')
          = Inr \<lparr>ok = False, reason = None, user = None\<rparr>"
    using loginUser_after_signup [of lower kdf now rnd gid gid2 name em phone address P c r c' now' gid' P']
    by (simp add: toBase64_inj)
qed

theorem hash_verify_roundtrip_witness:
  "hashPassword kdf_stub [0] (js ''abcd1234'') (Some [1, 2, 3]) 150000
     = Inr \<lparr>salt = toBase64 [1, 2, 3], iterations = 150000,
            hash = toBase64 (kdf_stub (js ''abcd1234'') [1, 2, 3] 150000)\<rparr>
   \<and> verifyPassword kdf_stub (js ''abcd1234'')
        \<lparr>salt = toBase64 [1, 2, 3], iterations = 150000,
         hash = toBase64 (kdf_stub (js ''abcd1234'') [1, 2, 3] 150000)\<rparr> = Inr True
   \<and> kdf_stub (js ''wrong1234'') [1, 2, 3] 150000 \<noteq> kdf_stub (js ''abcd1234'') [1, 2, 3] 150000
   \<and> verifyPassword kdf_stub (js ''wrong1234'')
        \<lparr>salt = toBase64 [1, 2, 3], iterations = 150000,
         hash = toBase64 (kdf_stub (js ''abcd1234'') [1, 2, 3] 150000)\<rparr> = Inr False
   \<and> hashPassword kdf_stub [0] (js ''abcd1234'') (Some [1, 2, 3]) 0 = Inl OperationError
   \<and> hashPassword kdf_stub [0] (js ''abcd1234'') (Some [1, 2, 3]) 4294967296 = Inl TypeError
   \<and> ok (\<lparr>ok = True, reason = None, user = Some (demo_user\<lparr>u_id := js ''u1''\<rparr>)\<rparr>)
   \<and> fst (loginUser ascii_lower kdf_stub 2000 (js ''u3'') (js ''Ann@X.Y'') (js ''abcdefgh'')
          (snd (signupUser ascii_lower kdf_stub 1000 [9] (js ''u1'') (js ''u2'') (js ''Ann'')
             (js ''Ann@X.Y'') (js ''123'') (js ''Road'') (js ''abcdefgh'') no_customer)))
       = Inr \<lparr>ok = True, reason = None, user = Some (demo_user\<lparr>u_id := js ''u1''\<rparr>)\<rparr>"
proof -
  have h: "hashPassword kdf_stub [0] (js ''abcd1234'') (Some [1, 2, 3]) 150000
     = Inr \<lparr>salt = toBase64 [1, 2, 3], iterations = 150000,
            hash = toBase64 (kdf_stub (js ''abcd1234'') [1, 2, 3] 150000)\<rparr>"
    by (simp add: hashPassword_value)
  have d: "kdf_stub (js ''wrong1234'') [1, 2, 3] 150000 \<noteq> kdf_stub (js ''abcd1234'') [1, 2, 3] 150000"
    by (simp add: kdf_stub_def js_def)
  have n: "\<not> list_ex (\<lambda>u. ascii_lower (u_email u) = ascii_lower (js ''Ann@X.Y''))
               (getUsersDB no_customer)"
    by (simp add: getUsersDB_def no_customer_def)
  have su: "signupUser ascii_lower kdf_stub 1000 [9] (js ''u1'') (js ''u2'') (js ''Ann'')
             (js ''Ann@X.Y'') (js ''123'') (js ''Road'') (js ''abcdefgh'') no_customer
        = (Inr \<lparr>ok = True, reason = None, user = Some (demo_user\<lparr>u_id := js ''u1''\<rparr>)\<rparr>,
           snd (signupUser ascii_lower kdf_stub 1000 [9] (js ''u1'') (js ''u2'') (js ''Ann'')
             (js ''Ann@X.Y'') (js ''123'') (js ''Road'') (js ''abcdefgh'') no_customer))"
    using signupUser_new [OF n, of kdf_stub 1000 "[9]" "js ''u1''" "js ''u2''" "js ''Ann''"
        "js ''123''" "js ''Road''" "js ''abcdefgh''"]
    by (simp add: prod_eq_iff demo_user_def)
  note T = hash_verify_roundtrip [where kdf = kdf_stub and rnd = "[0]" and P = "js ''abcd1234''"
      and S = "[1, 2, 3]" and its = 150000 and sb = "Some [1, 2, 3]" and P' = "js ''wrong1234''"
      and h = "\<lparr>salt = toBase64 [1, 2, 3], iterations = 150000,
            hash = toBase64 (kdf_stub (js ''abcd1234'') [1, 2, 3] 150000)\<rparr>"]
  note U = hash_verify_roundtrip [where kdf = kdf_stub and rnd = "[9]" and P = "js ''abcdefgh''"
      and lower = ascii_lower and now = 1000 and gid = "js ''u1''" and ?gid2.0 = "js ''u2''"
      and name = "js ''Ann''" and em = "js ''Ann@X.Y''" and phone = "js ''123''"
      and address = "js ''Road''" and c = no_customer
      and r = "\<lparr>ok = True, reason = None, user = Some (demo_user\<lparr>u_id := js ''u1''\<rparr>)\<rparr>"
      and c' = "snd (signupUser ascii_lower kdf_stub 1000 [9] (js ''u1'') (js ''u2'') (js ''Ann'')
             (js ''Ann@X.Y'') (js ''123'') (js ''Road'') (js ''abcdefgh'') no_customer)"
      and now' = 2000 and gid' = "js ''u3''"]
  have 1: "verifyPassword kdf_stub (js ''abcd1234'')
        \<lparr>salt = toBase64 [1, 2, 3], iterations = 150000,
         hash = toBase64 (kdf_stub (js ''abcd1234'') [1, 2, 3] 150000)\<rparr> = Inr True"
    using T h by blast
  have 2: "verifyPassword kdf_stub (js ''wrong1234'')
        \<lparr>salt = toBase64 [1, 2, 3], iterations = 150000,
         hash = toBase64 (kdf_stub (js ''abcd1234'') [1, 2, 3] 150000)\<rparr> = Inr False"
    using T h d by blast
  have 3: "fst (loginUser ascii_lower kdf_stub 2000 (js ''u3'') (js ''Ann@X.Y'') (js ''abcdefgh'')
          (snd (signupUser ascii_lower kdf_stub 1000 [9] (js ''u1'') (js ''u2'') (js ''Ann'')
             (js ''Ann@X.Y'') (js ''123'') (js ''Road'') (js ''abcdefgh'') no_customer)))
       = Inr \<lparr>ok = True, reason = None, user = Some (demo_user\<lparr>u_id := js ''u1''\<rparr>)\<rparr>"
    using U su by simp
  have 4: "hashPassword kdf_stub [0] (js ''abcd1234'') (Some [1, 2, 3]) 0 = Inl OperationError"
    "hashPassword kdf_stub [0] (js ''abcd1234'') (Some [1, 2, 3]) 4294967296 = Inl TypeError"
    by (simp_all add: hashPassword_def deriveKey_def)
  show ?thesis using h d 1 2 3 4 by simp
qed

end
